theory Spec2Isabelle
  imports Main
begin

section \<open>Python values and exceptions\<close>

text \<open>
  The two scripts read JSON bodies of HTTP replies. A parsed body is a value of
  \<open>json\<close>; an object is kept as an association list that is read with
  \<open>map_of\<close> (a parsed object has one value for each key). Numbers are the
  integers; no function below does arithmetic on a number of a reply.
\<close>

datatype json =
    JNull
  | JBool bool
  | JInt int
  | JStr string
  | JArr "json list"
  | JObj "(string \<times> json) list"

text \<open>The exceptions the scripts can meet. All of them are caught by \<open>except Exception\<close>.\<close>

datatype exn =
    RequestException
  | JSONDecodeError
  | KeyError
  | TypeError
  | AttributeError
  | IndexError
  | ValueError
  | UnboundLocalError
  | OSError
  | EOFError

text \<open>Truth value of a Python object, as \<open>if x:\<close> and \<open>x and y\<close> test it.\<close>

fun truthy :: "json \<Rightarrow> bool" where
  "truthy JNull = False"
| "truthy (JBool b) = b"
| "truthy (JInt i) = (i \<noteq> 0)"
| "truthy (JStr s) = (s \<noteq> [])"
| "truthy (JArr xs) = (xs \<noteq> [])"
| "truthy (JObj kvs) = (kvs \<noteq> [])"

text \<open>\<open>x[k]\<close> with a string key \<open>k\<close>.\<close>

fun subscript_str :: "json \<Rightarrow> string \<Rightarrow> exn + json" where
  "subscript_str (JObj kvs) k = (case map_of kvs k of None \<Rightarrow> Inl KeyError | Some v \<Rightarrow> Inr v)"
| "subscript_str _ k = Inl TypeError"

text \<open>\<open>xs[i]\<close> on a sequence: an index below zero is counted back from the end.\<close>

definition py_index :: "'a list \<Rightarrow> int \<Rightarrow> exn + 'a" where
  "py_index xs i =
     (if 0 \<le> i \<and> i < int (length xs) then Inr (xs ! nat i)
      else if i < 0 \<and> - int (length xs) \<le> i then Inr (xs ! nat (int (length xs) + i))
      else Inl IndexError)"

text \<open>\<open>x[i]\<close> with an integer \<open>i\<close>. The keys of a parsed object are strings, so no integer is one.\<close>

fun subscript_int :: "json \<Rightarrow> int \<Rightarrow> exn + json" where
  "subscript_int (JArr xs) i = py_index xs i"
| "subscript_int (JStr s) i = (case py_index s i of Inl e \<Rightarrow> Inl e | Inr c \<Rightarrow> Inr (JStr [c]))"
| "subscript_int (JObj kvs) i = Inl KeyError"
| "subscript_int _ i = Inl TypeError"

text \<open>\<open>len(x)\<close>.\<close>

fun py_len :: "json \<Rightarrow> exn + nat" where
  "py_len (JArr xs) = Inr (length xs)"
| "py_len (JStr s) = Inr (length s)"
| "py_len (JObj kvs) = Inr (length kvs)"
| "py_len _ = Inl TypeError"

text \<open>The items a \<open>for\<close> loop over \<open>x\<close> visits: the entries of a list, the keys of an
  object, the characters of a string.\<close>

fun py_iter :: "json \<Rightarrow> exn + json list" where
  "py_iter (JArr xs) = Inr xs"
| "py_iter (JStr s) = Inr (map (\<lambda>c. JStr [c]) s)"
| "py_iter (JObj kvs) = Inr (map (\<lambda>kv. JStr (fst kv)) kvs)"
| "py_iter _ = Inl TypeError"

text \<open>\<open>x.get(k)\<close>: only a dict has the method; a missing key gives \<open>None\<close>.\<close>

fun dict_get :: "json \<Rightarrow> string \<Rightarrow> exn + json" where
  "dict_get (JObj kvs) k = Inr (case map_of kvs k of None \<Rightarrow> JNull | Some v \<Rightarrow> v)"
| "dict_get _ k = Inl AttributeError"

text \<open>\<open>x == s\<close> for a string \<open>s\<close>: only an equal string is equal.\<close>

fun py_eq_str :: "json \<Rightarrow> string \<Rightarrow> bool" where
  "py_eq_str (JStr t) s = (t = s)"
| "py_eq_str _ s = False"


section \<open>The regular expression of \<open>parse_version_from_filename\<close>\<close>

text \<open>
  The pattern \<^verbatim>\<open>v?(\d+\.\d+\.\d+)\<close> is a sequence of single-character items, each
  taken once, optionally (\<open>?\<close>) or one or more times (\<open>+\<close>), with the two ends of
  group 1 between them. \<open>re_match\<close> is the backtracking matcher on such sequences: \<open>?\<close>
  and \<open>+\<close> are greedy, and give characters back when the rest of the pattern fails. It
  returns the rests of the subject at the marks of group 1. File names are strings over
  \<open>char\<close>, and \<^verbatim>\<open>\d\<close> is a decimal digit.
\<close>

datatype cls = Lit char | Digit

fun cls_ok :: "cls \<Rightarrow> char \<Rightarrow> bool" where
  "cls_ok (Lit a) c = (c = a)"
| "cls_ok Digit c = (c \<in> set ''0123456789'')"

datatype item = One cls | Opt cls | Plus cls | GroupOpen | GroupClose

function re_match :: "item list \<Rightarrow> string \<Rightarrow> string list option" where
  "re_match [] s = Some []"
| "re_match (GroupOpen # r) s = map_option (\<lambda>ms. s # ms) (re_match r s)"
| "re_match (GroupClose # r) s = map_option (\<lambda>ms. s # ms) (re_match r s)"
| "re_match (One k # r) [] = None"
| "re_match (One k # r) (c # cs) = (if cls_ok k c then re_match r cs else None)"
| "re_match (Opt k # r) [] = re_match r []"
| "re_match (Opt k # r) (c # cs) =
     (if cls_ok k c
      then (case re_match r cs of Some ms \<Rightarrow> Some ms | None \<Rightarrow> re_match r (c # cs))
      else re_match r (c # cs))"
| "re_match (Plus k # r) [] = None"
| "re_match (Plus k # r) (c # cs) =
     (if cls_ok k c
      then (case re_match (Plus k # r) cs of Some ms \<Rightarrow> Some ms | None \<Rightarrow> re_match r cs)
      else None)"
  by pat_completeness auto
termination
  by (relation "measure (\<lambda>(r, s). 2 * length s + length r)") auto

text \<open>\<open>re.search\<close>: the first position of the subject, from the left, where the pattern matches.\<close>

fun re_search :: "item list \<Rightarrow> string \<Rightarrow> string list option" where
  "re_search r [] = re_match r []"
| "re_search r (c # cs) =
     (case re_match r (c # cs) of Some ms \<Rightarrow> Some ms | None \<Rightarrow> re_search r cs)"

definition pattern :: "item list" where
  "pattern = [Opt (Lit CHR ''v''), GroupOpen,
              Plus Digit, One (Lit CHR ''.''), Plus Digit, One (Lit CHR ''.''), Plus Digit,
              GroupClose]"

text \<open>\<open>match.group(1)\<close>: the part of the subject between the two marks.\<close>

definition group1 :: "string list \<Rightarrow> string" where
  "group1 ms = (case ms of [a, b] \<Rightarrow> take (length a - length b) a | _ \<Rightarrow> [])"

definition parse_version_from_filename :: "string \<Rightarrow> string option" where
  "parse_version_from_filename filename =
     (case re_search pattern filename of
        Some ms \<Rightarrow> Some (CHR ''v'' # group1 ms)
      | None \<Rightarrow> None)"

text \<open>A version number: three groups of digits, none empty, with a dot between them.\<close>

definition digits :: "string \<Rightarrow> bool" where
  "digits a = (a \<noteq> [] \<and> list_all (cls_ok Digit) a)"

definition version_number :: "string \<Rightarrow> bool" where
  "version_number w =
     (\<exists>a b c. digits a \<and> digits b \<and> digits c \<and> w = a @ ''.'' @ b @ ''.'' @ c)"

definition has_version :: "string \<Rightarrow> bool" where
  "has_version s = (\<exists>pre w post. version_number w \<and> s = pre @ w @ post)"

definition tail_pattern :: "item list" where
  "tail_pattern =
     [Plus Digit, One (Lit CHR ''.''), Plus Digit, One (Lit CHR ''.''), Plus Digit, GroupClose]"


section \<open>The world outside the scripts\<close>

text \<open>
  A \<open>requests\<close> call either raises or returns a response, of which the scripts read the
  status code, the raw text and the parsed body (\<open>json_body\<close> is \<open>None\<close> when
  \<open>response.json()\<close> raises).
\<close>

record response =
  status_code :: int
  resp_text :: string
  json_body :: "json option"

datatype http_result = Failure | Reply response

text \<open>
  One constructor for each request a script sends, with the values it puts into the URL, the
  bearer header and the body: the management address and the token of a device; for the
  upload the bytes read from the image file and the file name (sent base64-encoded, and
  reduced to its base name); for the SD-WAN script the base URL, the VDOM and the sequence
  number of a route.
\<close>

datatype request =
    GetFirmware string string
  | PostConfigBackup string string
  | PostFirmwareUpgrade string string string string
  | GetVdoms string
  | GetStaticRoutes string json
  | DeleteStaticRoute string json json
  | PostStaticRoute string json

text \<open>One constructor for each \<open>print\<close> statement, with the values it formats.\<close>

datatype message =
    ErrFirmwareQuery string
  | FirmwareVersionsHeader
  | CurrentVersion "json option"
  | FirmwareOption nat json json json json
  | ErrUpload string
  | ErrBackup string string
  | ConfigSaved string
  | Banner
  | ErrNoVersion
  | ErrMissingInfo "string option"
  | Connecting string string
  | ErrConnect string string exn
  | UpgradeStarted string string
  | ErrUpgrade string string exn
  | UpgradeCompleted string
  | ErrVersionNotFound string string
  | VdomSet json
  | SelectVdom
  | VdomMenuLine nat json
  | ErrVdoms int
  | RouteDeleted
  | ErrRouteDelete int
  | RouteSet
  | ErrRouteSet int
  | ErrRoutes int

text \<open>
  What a run does, in order: the requests it sends, the lines it prints, the files it
  writes (path and content) and the prompts it waits at.
\<close>

datatype event = Sent request | Printed message | Wrote string string | Asked

text \<open>
  What \<open>int(input(...))\<close> comes to: \<open>input\<close> raises \<open>EOFError\<close> when there is no
  line to read, \<open>int\<close> raises \<open>ValueError\<close> on a line that is not a number.
\<close>

datatype answer = NoLine | NotANumber | Number int

text \<open>
  The devices, the file system and the operator answer as functions of what the run has
  done so far: \<open>http\<close> is the outcome of a request, \<open>read_file\<close> the bytes of a file
  opened for reading (\<open>None\<close> when \<open>open\<close> raises), \<open>int_input\<close> the outcome of
  \<open>int(input(...))\<close>. \<open>write_file\<close> says whether a file of the given path can be
  opened for writing and the given content written to it; when it cannot, \<open>open\<close> or
  \<open>write\<close> raises \<open>OSError\<close> (so for a path into a directory that does not exist).
\<close>

record world =
  http :: "event list \<Rightarrow> request \<Rightarrow> http_result"
  read_file :: "event list \<Rightarrow> string \<Rightarrow> string option"
  write_file :: "event list \<Rightarrow> string \<Rightarrow> string \<Rightarrow> bool"
  int_input :: "event list \<Rightarrow> answer"

definition and_then :: "exn + 'a \<Rightarrow> ('a \<Rightarrow> exn + 'b) \<Rightarrow> exn + 'b" where
  "and_then x f = (case x of Inl e \<Rightarrow> Inl e | Inr a \<Rightarrow> f a)"


section \<open>upgradeFortigateFirmware.py\<close>

record firmware_dict =
  version :: json
  build :: json
  release_type :: json
  maturity :: json
  fw_notes :: json

text \<open>The body of the loop of \<open>get_available_firmware\<close>: the entry to append, if any.\<close>

definition firmware_entry :: "json \<Rightarrow> exn + firmware_dict option" where
  "firmware_entry fw =
     and_then (dict_get fw ''version'') (\<lambda>v.
     and_then (dict_get fw ''build'') (\<lambda>b.
     and_then (dict_get fw ''release-type'') (\<lambda>r.
     and_then (dict_get fw ''maturity'') (\<lambda>m.
     and_then (dict_get fw ''notes'') (\<lambda>n.
       if truthy v \<and> truthy b \<and> truthy r \<and> truthy m
       then Inr (Some \<lparr>version = v, build = b, release_type = r, maturity = m, fw_notes = n\<rparr>)
       else Inr None)))))"

fun append_firmware :: "json list \<Rightarrow> firmware_dict list \<Rightarrow> exn + firmware_dict list" where
  "append_firmware [] available_firmware = Inr available_firmware"
| "append_firmware (fw # fws) available_firmware =
     (case firmware_entry fw of
        Inl e \<Rightarrow> Inl e
      | Inr None \<Rightarrow> append_firmware fws available_firmware
      | Inr (Some firmware_dict) \<Rightarrow> append_firmware fws (available_firmware @ [firmware_dict]))"

text \<open>Lines 29 to 41: the current version and the list built from a parsed body.\<close>

definition read_firmware :: "response \<Rightarrow> exn + json \<times> firmware_dict list" where
  "read_firmware response =
     (case json_body response of
        None \<Rightarrow> Inl JSONDecodeError
      | Some firmware_json \<Rightarrow>
          and_then (subscript_str firmware_json ''results'') (\<lambda>results.
          and_then (subscript_str results ''current'') (\<lambda>current.
          and_then (subscript_str current ''version'') (\<lambda>current_firmware.
          and_then (subscript_str firmware_json ''results'') (\<lambda>results.
          and_then (subscript_str results ''available'') (\<lambda>available.
          and_then (py_iter available) (\<lambda>fws.
          and_then (append_firmware fws []) (\<lambda>available_firmware.
            Inr (current_firmware, available_firmware)))))))))"

definition get_available_firmware ::
  "world \<Rightarrow> string \<Rightarrow> string \<Rightarrow> event list \<Rightarrow>
     (exn + json option \<times> firmware_dict list option) \<times> event list" where
  "get_available_firmware w fw_ip api_token tr =
     (let req = GetFirmware fw_ip api_token; tr1 = tr @ [Sent req] in
      case http w tr req of
        Failure \<Rightarrow> (Inl RequestException, tr1)
      | Reply response \<Rightarrow>
          if status_code response \<noteq> 200
          then (Inr (None, None), tr1 @ [Printed (ErrFirmwareQuery fw_ip)])
          else (case read_firmware response of
                  Inl e \<Rightarrow> (Inl e, tr1)
                | Inr (current_firmware, available_firmware) \<Rightarrow>
                    (Inr (Some current_firmware, Some available_firmware), tr1)))"

text \<open>\<open>enumerate(None)\<close> raises \<open>TypeError\<close>, after the first two lines are printed.\<close>

definition print_firmware_options ::
  "json option \<Rightarrow> firmware_dict list option \<Rightarrow> event list \<Rightarrow> (exn + unit) \<times> event list" where
  "print_firmware_options current_firmware available_firmware tr =
     (let tr1 = tr @ [Printed FirmwareVersionsHeader, Printed (CurrentVersion current_firmware)] in
      case available_firmware of
        None \<Rightarrow> (Inl TypeError, tr1)
      | Some fws \<Rightarrow>
          (Inr (),
           tr1 @ map (\<lambda>(i, fw). Printed (FirmwareOption (i + 1) (version fw) (build fw)
                                      (release_type fw) (maturity fw)))
                  (enumerate 0 fws)))"

text \<open>The image file is read while the body of the request is built, before it is sent.\<close>

definition upload_firmware ::
  "world \<Rightarrow> string \<Rightarrow> string \<Rightarrow> string \<Rightarrow> event list \<Rightarrow> (exn + json) \<times> event list" where
  "upload_firmware w fw_ip api_token filename tr =
     (case read_file w tr filename of
        None \<Rightarrow> (Inl OSError, tr)
      | Some file_content \<Rightarrow>
          (let req = PostFirmwareUpgrade fw_ip api_token file_content filename;
               tr1 = tr @ [Sent req] in
           case http w tr req of
             Failure \<Rightarrow> (Inl RequestException, tr1)
           | Reply response \<Rightarrow>
               if status_code response \<noteq> 200
               then (Inr JNull, tr1 @ [Printed (ErrUpload fw_ip)])
               else (case json_body response of
                       None \<Rightarrow> (Inl JSONDecodeError, tr1)
                     | Some response_json \<Rightarrow> (dict_get response_json ''file_id'', tr1))))"

definition backup_filename :: "string \<Rightarrow> string \<Rightarrow> string" where
  "backup_filename fgt_name fw_ip = fgt_name @ ''-'' @ fw_ip @ ''-config-backup.conf''"

text \<open>
  Lines 93 to 96 run on a reply with status 200 only. When the file cannot be written the
  exception leaves the function before the last line is printed.
\<close>

definition save_configuration ::
  "world \<Rightarrow> string \<Rightarrow> string \<Rightarrow> string \<Rightarrow> event list \<Rightarrow> (exn + unit) \<times> event list" where
  "save_configuration w fgt_name fw_ip api_token tr =
     (let req = PostConfigBackup fw_ip api_token; tr1 = tr @ [Sent req] in
      case http w tr req of
        Failure \<Rightarrow> (Inl RequestException, tr1)
      | Reply response \<Rightarrow>
          if status_code response \<noteq> 200
          then (Inr (), tr1 @ [Printed (ErrBackup fgt_name fw_ip)])
          else (let filename = backup_filename fgt_name fw_ip in
                if write_file w tr1 filename (resp_text response)
                then (Inr (), tr1 @ [Wrote filename (resp_text response),
                                     Printed (ConfigSaved filename)])
                else (Inl OSError, tr1)))"

text \<open>
  A row of \<open>firewalls.csv\<close> as \<open>csv.DictReader\<close> gives it under the header
  \<open>fgt_name,fw_ip,api_token\<close>: a field is a string, or \<open>None\<close> in a row that ends
  before it.
\<close>

record row =
  fgt_name :: "string option"
  fw_ip :: "string option"
  api_token :: "string option"

text \<open>Line 113: the three fields of a row when each is a non-empty string.\<close>

definition row_fields :: "row \<Rightarrow> (string \<times> string \<times> string) option" where
  "row_fields r =
     (case (fgt_name r, fw_ip r, api_token r) of
        (Some n, Some i, Some t) \<Rightarrow> if n \<noteq> [] \<and> i \<noteq> [] \<and> t \<noteq> [] then Some (n, i, t) else None
      | _ \<Rightarrow> None)"

text \<open>Lines 126 to 130: the loop that looks for the version, left at the first match.\<close>

fun version_found :: "firmware_dict list \<Rightarrow> string \<Rightarrow> bool" where
  "version_found [] v = False"
| "version_found (fw # fws) v = (if py_eq_str (version fw) v then True else version_found fws v)"

text \<open>
  Lines 110 to 147, the body of the loop over the rows. The result is the exception that
  leaves the loop, if any; \<open>None\<close> goes on with the next row.
\<close>

definition upgrade_row ::
  "world \<Rightarrow> string \<Rightarrow> string \<Rightarrow> row \<Rightarrow> event list \<Rightarrow> exn option \<times> event list" where
  "upgrade_row w v filename r tr =
     (case row_fields r of
        None \<Rightarrow> (None, tr @ [Printed (ErrMissingInfo (fgt_name r))])
      | Some (name, ip, token) \<Rightarrow>
          (case get_available_firmware w ip token (tr @ [Printed (Connecting name ip)]) of
             (Inl e, tr2) \<Rightarrow> (None, tr2 @ [Printed (ErrConnect name ip e)])
           | (Inr (current_firmware, available_firmware), tr2) \<Rightarrow>
               (case print_firmware_options current_firmware available_firmware tr2 of
                  (Inl e, tr3) \<Rightarrow> (Some e, tr3)
                | (Inr _, tr3) \<Rightarrow>
                    (case available_firmware of
                       None \<Rightarrow> (Some TypeError, tr3)
                     | Some fws \<Rightarrow>
                         if version_found fws v
                         then (case save_configuration w name ip token tr3 of
                                 (Inl e, tr4) \<Rightarrow> (Some e, tr4)
                               | (Inr _, tr4) \<Rightarrow>
                                   (case upload_firmware w ip token filename
                                           (tr4 @ [Printed (UpgradeStarted name filename)]) of
                                      (Inl e, tr5) \<Rightarrow> (None, tr5 @ [Printed (ErrUpgrade name ip e)])
                                    | (Inr file_id, tr5) \<Rightarrow>
                                        (None, tr5 @ [Printed (UpgradeCompleted name)])))
                         else (None, tr3 @ [Printed (ErrVersionNotFound v name)])))))"

fun fleet ::
  "world \<Rightarrow> string \<Rightarrow> string \<Rightarrow> row list \<Rightarrow> event list \<Rightarrow> exn option \<times> event list" where
  "fleet w v filename [] tr = (None, tr)"
| "fleet w v filename (r # rs) tr =
     (case upgrade_row w v filename r tr of
        (Some e, tr') \<Rightarrow> (Some e, tr')
      | (None, tr') \<Rightarrow> fleet w v filename rs tr')"

datatype outcome = Finished | Exited int | Uncaught exn

text \<open>\<open>main\<close>, given the file name typed at the prompt and the rows of the inventory.\<close>

definition main :: "world \<Rightarrow> string \<Rightarrow> row list \<Rightarrow> outcome \<times> event list" where
  "main w filename rows =
     (case parse_version_from_filename filename of
        None \<Rightarrow> (Exited 1, [Printed Banner, Asked, Printed ErrNoVersion])
      | Some v \<Rightarrow>
          (case fleet w v filename rows [Printed Banner, Asked] of
             (None, tr) \<Rightarrow> (Finished, tr)
           | (Some e, tr) \<Rightarrow> (Uncaught e, tr)))"

text \<open>The devices a run has asked for their firmware, in order.\<close>

fun queried :: "event list \<Rightarrow> (string \<times> string) list" where
  "queried [] = []"
| "queried (Sent (GetFirmware ip token) # tr) = (ip, token) # queried tr"
| "queried (_ # tr) = queried tr"

text \<open>The files a run has written, in order.\<close>

fun written :: "event list \<Rightarrow> (string \<times> string) list" where
  "written [] = []"
| "written (Wrote path content # tr) = (path, content) # written tr"
| "written (_ # tr) = written tr"


section \<open>BasicFgtSdwanConfig.py\<close>

text \<open>Lines 92 and 93: one line of the menu for each VDOM, numbered from 1.\<close>

fun print_menu :: "json list \<Rightarrow> nat \<Rightarrow> event list \<Rightarrow> (exn + unit) \<times> event list" where
  "print_menu [] i tr = (Inr (), tr)"
| "print_menu (vdom # rest) i tr =
     (case subscript_str vdom ''name'' of
        Inl e \<Rightarrow> (Inl e, tr)
      | Inr name \<Rightarrow> print_menu rest (i + 1) (tr @ [Printed (VdomMenuLine (i + 1) name)]))"

text \<open>\<open>vdoms[i]['name']\<close>.\<close>

definition vdom_name :: "json \<Rightarrow> int \<Rightarrow> exn + json" where
  "vdom_name vdoms i = and_then (subscript_int vdoms i) (\<lambda>vdom. subscript_str vdom ''name'')"

text \<open>
  \<open>vdom\<close> is assigned in the two branches for two and for more than two VDOMs only, so the
  \<open>return\<close> of the other paths raises \<open>UnboundLocalError\<close>.
\<close>

definition getTrafficVdomName :: "world \<Rightarrow> string \<Rightarrow> event list \<Rightarrow> (exn + json) \<times> event list" where
  "getTrafficVdomName w base_url tr =
     (let req = GetVdoms base_url; tr1 = tr @ [Sent req] in
      case http w tr req of
        Failure \<Rightarrow> (Inl RequestException, tr1)
      | Reply response \<Rightarrow>
          if status_code response = 200
          then (case json_body response of
                  None \<Rightarrow> (Inl JSONDecodeError, tr1)
                | Some body \<Rightarrow>
                    (case subscript_str body ''results'' of
                       Inl e \<Rightarrow> (Inl e, tr1)
                     | Inr vdoms \<Rightarrow>
                         (case py_len vdoms of
                            Inl e \<Rightarrow> (Inl e, tr1)
                          | Inr n \<Rightarrow>
                              if n = 2
                              then (case vdom_name vdoms 1 of
                                      Inl e \<Rightarrow> (Inl e, tr1)
                                    | Inr vdom \<Rightarrow> (Inr vdom, tr1 @ [Printed (VdomSet vdom)]))
                              else if n > 2
                              then (case py_iter vdoms of
                                      Inl e \<Rightarrow> (Inl e, tr1 @ [Printed SelectVdom])
                                    | Inr items \<Rightarrow>
                                        (case print_menu items 0 (tr1 @ [Printed SelectVdom]) of
                                           (Inl e, tr2) \<Rightarrow> (Inl e, tr2)
                                         | (Inr _, tr2) \<Rightarrow>
                                             (case int_input w tr2 of
                                                NoLine \<Rightarrow> (Inl EOFError, tr2 @ [Asked])
                                              | NotANumber \<Rightarrow> (Inl ValueError, tr2 @ [Asked])
                                              | Number vdom_number \<Rightarrow>
                                                  (case vdom_name vdoms (vdom_number - 1) of
                                                     Inl e \<Rightarrow> (Inl e, tr2 @ [Asked])
                                                   | Inr vdom \<Rightarrow>
                                                       (Inr vdom,
                                                        tr2 @ [Asked, Printed (VdomSet vdom)])))))
                              else (Inl UnboundLocalError, tr1))))
          else (Inl UnboundLocalError, tr1 @ [Printed (ErrVdoms (status_code response))]))"

text \<open>Lines 144 and 145: the first route whose \<open>dst\<close> is the default destination.\<close>

fun find_default_route :: "json list \<Rightarrow> exn + json option" where
  "find_default_route [] = Inr None"
| "find_default_route (route # rest) =
     (case subscript_str route ''dst'' of
        Inl e \<Rightarrow> Inl e
      | Inr dst \<Rightarrow>
          if py_eq_str dst ''0.0.0.0 0.0.0.0'' then Inr (Some route) else find_default_route rest)"

text \<open>Lines 144 to 146: the route to delete, or \<open>None\<close> when one is to be created.\<close>

definition default_route_of :: "response \<Rightarrow> exn + json option" where
  "default_route_of response =
     (case json_body response of
        None \<Rightarrow> Inl JSONDecodeError
      | Some body \<Rightarrow>
          and_then (subscript_str body ''results'') (\<lambda>routes.
          and_then (py_iter routes) (\<lambda>rs.
          and_then (find_default_route rs) (\<lambda>default_route.
            case default_route of
              None \<Rightarrow> Inr None
            | Some route \<Rightarrow> if truthy route then Inr (Some route) else Inr None))))"

definition configureDefaultRoute ::
  "world \<Rightarrow> string \<Rightarrow> json \<Rightarrow> event list \<Rightarrow> (exn + unit) \<times> event list" where
  "configureDefaultRoute w base_url vdom tr =
     (let req = GetStaticRoutes base_url vdom; tr1 = tr @ [Sent req] in
      case http w tr req of
        Failure \<Rightarrow> (Inl RequestException, tr1)
      | Reply response \<Rightarrow>
          if status_code response = 200
          then (case default_route_of response of
                  Inl e \<Rightarrow> (Inl e, tr1)
                | Inr (Some default_route) \<Rightarrow>
                    (case subscript_str default_route ''seq_num'' of
                       Inl e \<Rightarrow> (Inl e, tr1)
                     | Inr seq_num \<Rightarrow>
                         (let del = DeleteStaticRoute base_url seq_num vdom;
                              tr2 = tr1 @ [Sent del] in
                          case http w tr1 del of
                            Failure \<Rightarrow> (Inl RequestException, tr2)
                          | Reply response2 \<Rightarrow>
                              if status_code response2 = 200
                              then (Inr (), tr2 @ [Printed RouteDeleted])
                              else (Inr (),
                                    tr2 @ [Printed (ErrRouteDelete (status_code response2))])))
                | Inr None \<Rightarrow>
                    (let post = PostStaticRoute base_url vdom; tr2 = tr1 @ [Sent post] in
                     case http w tr1 post of
                       Failure \<Rightarrow> (Inl RequestException, tr2)
                     | Reply response2 \<Rightarrow>
                         if status_code response2 = 200
                         then (Inr (), tr2 @ [Printed RouteSet])
                         else (Inr (), tr2 @ [Printed (ErrRouteSet (status_code response2))])))
          else (Inr (), tr1 @ [Printed (ErrRoutes (status_code response))]))"

text \<open>The requests of a run that change the static routes: deletions and creations.\<close>

fun deletions :: "event list \<Rightarrow> request list" where
  "deletions [] = []"
| "deletions (Sent (DeleteStaticRoute b s v) # tr) = DeleteStaticRoute b s v # deletions tr"
| "deletions (_ # tr) = deletions tr"

fun creations :: "event list \<Rightarrow> request list" where
  "creations [] = []"
| "creations (Sent (PostStaticRoute b v) # tr) = PostStaticRoute b v # creations tr"
| "creations (_ # tr) = creations tr"


section \<open>Notions of the statements\<close>

text \<open>
  What \<open>fw.get(k)\<close> gives for an entry of a reply, the entries that carry the four
  fields the loop of \<open>get_available_firmware\<close> asks for, and the dictionary it builds
  from such an entry.
\<close>

definition field :: "json \<Rightarrow> string \<Rightarrow> json" where
  "field fw k = (case fw of JObj kvs \<Rightarrow> (case map_of kvs k of None \<Rightarrow> JNull | Some v \<Rightarrow> v) | _ \<Rightarrow> JNull)"

definition complete_entry :: "json \<Rightarrow> bool" where
  "complete_entry fw =
     (truthy (field fw ''version'') \<and> truthy (field fw ''build'') \<and>
      truthy (field fw ''release-type'') \<and> truthy (field fw ''maturity''))"

definition entry_dict :: "json \<Rightarrow> firmware_dict" where
  "entry_dict fw =
     \<lparr>version = field fw ''version'', build = field fw ''build'',
      release_type = field fw ''release-type'', maturity = field fw ''maturity'',
      fw_notes = field fw ''notes''\<rparr>"

text \<open>
  The devices a run has asked for a backup of their configuration, and the devices it has
  uploaded an image to (with the file name), in order.
\<close>

fun backups :: "event list \<Rightarrow> (string \<times> string) list" where
  "backups [] = []"
| "backups (Sent (PostConfigBackup ip token) # tr) = (ip, token) # backups tr"
| "backups (_ # tr) = backups tr"

fun uploads :: "event list \<Rightarrow> (string \<times> string) list" where
  "uploads [] = []"
| "uploads (Sent (PostFirmwareUpgrade ip token file_content filename) # tr) = (ip, filename) # uploads tr"
| "uploads (_ # tr) = uploads tr"





text \<open>
  A route whose destination is the default destination, and an entry of the list of routes
  that is an object with a destination.
\<close>

definition is_default :: "json \<Rightarrow> bool" where
  "is_default route = (field route ''dst'' = JStr ''0.0.0.0 0.0.0.0'')"

definition has_dst :: "json \<Rightarrow> bool" where
  "has_dst route = (case route of JObj kvs \<Rightarrow> map_of kvs ''dst'' \<noteq> None | _ \<Rightarrow> False)"

text \<open>
  What \<open>getTrafficVdomName\<close> has sent and printed when it stops at its prompt, for
  VDOMs of the given names; and the number of prompts of a run.
\<close>

definition menu :: "string \<Rightarrow> json list \<Rightarrow> event list" where
  "menu base_url names =
     [Sent (GetVdoms base_url), Printed SelectVdom] @
     map (\<lambda>(i, name). Printed (VdomMenuLine (i + 1) name)) (enumerate 0 names)"

fun prompts :: "event list \<Rightarrow> nat" where
  "prompts [] = 0"
| "prompts (Asked # tr) = Suc (prompts tr)"
| "prompts (_ # tr) = prompts tr"


section \<open>A laboratory\<close>

text \<open>
  A world to run the scripts in. The device at 10.0.0.9 answers the firmware query with
  status 500; the others list three images, of which one has build \<open>0\<close> and one no
  release type. The device at 10.0.0.2 refuses the backup with status 503. The only image
  file is \<open>FGT_upgrade_v7.4.1.out\<close>. The device at 10.0.0.1 has the VDOMs root and
  traffic and two default routes, the device at 10.0.0.2 three VDOMs and no default route,
  the device at 10.0.0.3 the VDOM root alone; any other address rejects the token. The
  working directory has no directory in it, so a file can be written exactly when its path
  has no slash. The operator types 2 at every prompt.
\<close>

definition firmware_body :: json where
  "firmware_body =
     JObj [(''results'', JObj
       [(''current'', JObj [(''version'', JStr ''v7.2.5'')]),
        (''available'', JArr
          [JObj [(''version'', JStr ''v7.4.1''), (''build'', JInt 2463),
                 (''release-type'', JStr ''GA''), (''maturity'', JStr ''M'')],
           JObj [(''version'', JStr ''v7.4.0''), (''build'', JInt 0),
                 (''release-type'', JStr ''GA''), (''maturity'', JStr ''F''),
                 (''notes'', JStr ''withdrawn'')],
           JObj [(''version'', JStr ''v7.2.6''), (''build'', JInt 1575),
                 (''maturity'', JStr ''M'')]])])]"

definition reply :: "int \<Rightarrow> string \<Rightarrow> json option \<Rightarrow> http_result" where
  "reply code txt body = Reply \<lparr>status_code = code, resp_text = txt, json_body = body\<rparr>"

definition vdom_entry :: "string \<Rightarrow> json" where
  "vdom_entry name = JObj [(''name'', JStr name), (''short-name'', JStr name)]"

definition route_entry :: "int \<Rightarrow> string \<Rightarrow> json" where
  "route_entry n dst = JObj [(''seq_num'', JInt n), (''dst'', JStr dst), (''gateway'', JStr ''192.0.2.1'')]"

definition results_body :: "json list \<Rightarrow> json option" where
  "results_body xs = Some (JObj [(''http_method'', JStr ''GET''), (''results'', JArr xs)])"

definition lab_http :: "event list \<Rightarrow> request \<Rightarrow> http_result" where
  "lab_http tr req =
     (case req of
        GetFirmware ip token \<Rightarrow>
          if ip = ''10.0.0.9'' then reply 500 [] None else reply 200 [] (Some firmware_body)
      | PostConfigBackup ip token \<Rightarrow>
          if ip = ''10.0.0.2'' then reply 503 [] None else reply 200 ''#config-version=FGT'' None
      | PostFirmwareUpgrade ip token file_content filename \<Rightarrow>
          reply 200 [] (Some (JObj [(''file_id'', JStr ''f1'')]))
      | GetVdoms base_url \<Rightarrow>
          if base_url = ''https://10.0.0.1/api/v2''
          then reply 200 [] (results_body [vdom_entry ''root'', vdom_entry ''traffic''])
          else if base_url = ''https://10.0.0.2/api/v2''
          then reply 200 [] (results_body [vdom_entry ''root'', vdom_entry ''guest'', vdom_entry ''traffic''])
          else if base_url = ''https://10.0.0.3/api/v2''
          then reply 200 [] (results_body [vdom_entry ''root''])
          else reply 401 [] None
      | GetStaticRoutes base_url v \<Rightarrow>
          if base_url = ''https://10.0.0.1/api/v2''
          then reply 200 [] (results_body [route_entry 1 ''10.1.0.0 255.255.0.0'', route_entry 2 ''0.0.0.0 0.0.0.0'',
                                     route_entry 3 ''0.0.0.0 0.0.0.0''])
          else if base_url = ''https://10.0.0.2/api/v2''
          then reply 200 [] (results_body [route_entry 1 ''10.1.0.0 255.255.0.0''])
          else reply 401 [] None
      | DeleteStaticRoute base_url seq_num v \<Rightarrow> reply 200 [] None
      | PostStaticRoute base_url v \<Rightarrow> reply 200 [] None)"

definition lab :: world where
  "lab = \<lparr>http = lab_http,
          read_file = (\<lambda>tr f. if f = ''FGT_upgrade_v7.4.1.out'' then Some ''image'' else None),
          write_file = (\<lambda>tr path content. CHR ''/'' \<notin> set path),
          int_input = (\<lambda>tr. Number 2)\<rparr>"

definition fgt :: "string \<Rightarrow> string \<Rightarrow> row" where
  "fgt name ip = \<lparr>fgt_name = Some name, fw_ip = Some ip, api_token = Some ''token''\<rparr>"


section \<open>The version in the file name\<close>

text \<open>What a successful match of \<open>+\<close>, of a single item and of \<open>?\<close> says about the subject,
  and when they succeed.\<close>

lemma plus_sound:
  "re_match (Plus k # r) s = Some ms \<Longrightarrow>
     \<exists>a rest. s = a @ rest \<and> a \<noteq> [] \<and> list_all (cls_ok k) a \<and> re_match r rest = Some ms"
proof (induction s)
  case Nil
  then show ?case by simp
next
  case (Cons c cs)
  from Cons.prems have ok: "cls_ok k c" by (simp split: if_splits)
  show ?case
  proof (cases "re_match (Plus k # r) cs")
    case None
    with Cons.prems ok have "re_match r cs = Some ms" by simp
    with ok have "c # cs = [c] @ cs \<and> [c] \<noteq> [] \<and> list_all (cls_ok k) [c] \<and> re_match r cs = Some ms"
      by simp
    then show ?thesis by blast
  next
    case (Some ms')
    with Cons.prems ok have "ms' = ms" by simp
    with Some Cons.IH obtain a rest where
      "cs = a @ rest" "a \<noteq> []" "list_all (cls_ok k) a" "re_match r rest = Some ms" by blast
    with ok have "c # cs = (c # a) @ rest \<and> c # a \<noteq> [] \<and> list_all (cls_ok k) (c # a) \<and> re_match r rest = Some ms"
      by simp
    then show ?thesis by blast
  qed
qed

lemma plus_complete:
  "a \<noteq> [] \<Longrightarrow> list_all (cls_ok k) a \<Longrightarrow> re_match r rest \<noteq> None \<Longrightarrow>
     re_match (Plus k # r) (a @ rest) \<noteq> None"
proof (induction a)
  case Nil
  then show ?case by simp
next
  case (Cons c a)
  show ?case
  proof (cases "a = []")
    case True
    with Cons.prems show ?thesis by (auto split: option.splits)
  next
    case False
    with Cons have "re_match (Plus k # r) (a @ rest) \<noteq> None" by simp
    with Cons.prems show ?thesis by (auto split: option.splits)
  qed
qed

lemma one_sound:
  "re_match (One k # r) s = Some ms \<Longrightarrow> \<exists>c rest. s = c # rest \<and> cls_ok k c \<and> re_match r rest = Some ms"
  by (cases s) (auto split: if_splits)

lemma opt_sound:
  "re_match (Opt k # r) s = Some ms \<Longrightarrow>
     re_match r s = Some ms \<or> (\<exists>c rest. s = c # rest \<and> cls_ok k c \<and> re_match r rest = Some ms)"
  by (cases s) (auto split: if_splits option.splits)

lemma opt_complete: "re_match r s \<noteq> None \<Longrightarrow> re_match (Opt k # r) s \<noteq> None"
  by (cases s) (auto split: option.splits)

lemma tail_sound:
  assumes "re_match tail_pattern s = Some ms"
  shows "\<exists>w post. s = w @ post \<and> version_number w \<and> ms = [post]"
proof -
  from assms obtain a s1 where a: "s = a @ s1" "a \<noteq> []" "list_all (cls_ok Digit) a"
    and m1: "re_match [One (Lit CHR ''.''), Plus Digit, One (Lit CHR ''.''), Plus Digit, GroupClose] s1 = Some ms"
    unfolding tail_pattern_def using plus_sound by blast
  from one_sound [OF m1] obtain s2 where s2: "s1 = CHR ''.'' # s2"
    and m2: "re_match [Plus Digit, One (Lit CHR ''.''), Plus Digit, GroupClose] s2 = Some ms"
    by auto
  from plus_sound [OF m2] obtain b s3 where b: "s2 = b @ s3" "b \<noteq> []" "list_all (cls_ok Digit) b"
    and m3: "re_match [One (Lit CHR ''.''), Plus Digit, GroupClose] s3 = Some ms"
    by blast
  from one_sound [OF m3] obtain s4 where s4: "s3 = CHR ''.'' # s4"
    and m4: "re_match [Plus Digit, GroupClose] s4 = Some ms"
    by auto
  from plus_sound [OF m4] obtain c post where c: "s4 = c @ post" "c \<noteq> []" "list_all (cls_ok Digit) c"
    and m5: "re_match [GroupClose] post = Some ms"
    by blast
  from m5 have ms: "ms = [post]" by auto
  have "version_number (a @ ''.'' @ b @ ''.'' @ c)"
    unfolding version_number_def digits_def using a b c by blast
  moreover have "s = (a @ ''.'' @ b @ ''.'' @ c) @ post"
    using a s2 b s4 c by simp
  ultimately show ?thesis using ms by blast
qed

lemma tail_complete:
  assumes "version_number w"
  shows "re_match tail_pattern (w @ post) \<noteq> None"
proof -
  from assms obtain a b c where d: "digits a" "digits b" "digits c"
    and w: "w = a @ ''.'' @ b @ ''.'' @ c"
    unfolding version_number_def by blast
  have m5: "re_match [GroupClose] post \<noteq> None" by simp
  have m4: "re_match [Plus Digit, GroupClose] (c @ post) \<noteq> None"
    using plus_complete [OF _ _ m5] d(3) unfolding digits_def by blast
  have m3: "re_match [One (Lit CHR ''.''), Plus Digit, GroupClose] (''.'' @ c @ post) \<noteq> None"
    using m4 by simp
  have m2: "re_match [Plus Digit, One (Lit CHR ''.''), Plus Digit, GroupClose] (b @ ''.'' @ c @ post) \<noteq> None"
    using plus_complete [OF _ _ m3] d(2) unfolding digits_def by blast
  have m1: "re_match [One (Lit CHR ''.''), Plus Digit, One (Lit CHR ''.''), Plus Digit, GroupClose]
       (''.'' @ b @ ''.'' @ c @ post) \<noteq> None"
    using m2 by simp
  have "re_match tail_pattern (a @ ''.'' @ b @ ''.'' @ c @ post) \<noteq> None"
    unfolding tail_pattern_def using plus_complete [OF _ _ m1] d(1) unfolding digits_def by blast
  then show ?thesis using w by simp
qed

lemma pattern_tail: "pattern = Opt (Lit CHR ''v'') # GroupOpen # tail_pattern"
  by (simp add: pattern_def tail_pattern_def)

lemma pattern_sound:
  assumes "re_match pattern s = Some ms"
  shows "\<exists>pre w post. s = pre @ w @ post \<and> version_number w \<and> group1 ms = w"
proof -
  have open_sound: "\<exists>w post. t = w @ post \<and> version_number w \<and> group1 ms = w"
    if "re_match (GroupOpen # tail_pattern) t = Some ms" for t
  proof -
    from that obtain ms' where ms': "re_match tail_pattern t = Some ms'" "ms = t # ms'"
      by auto
    from tail_sound [OF ms'(1)] obtain w post where "t = w @ post" "version_number w" "ms' = [post]"
      by blast
    with ms'(2) show ?thesis by (auto simp: group1_def)
  qed
  from assms opt_sound [of "Lit CHR ''v''" "GroupOpen # tail_pattern" s ms]
  consider "re_match (GroupOpen # tail_pattern) s = Some ms"
    | c rest where "s = c # rest" "re_match (GroupOpen # tail_pattern) rest = Some ms"
    unfolding pattern_tail by blast
  then show ?thesis
  proof cases
    case 1
    from open_sound [OF 1] obtain w post where "s = [] @ w @ post" "version_number w" "group1 ms = w"
      by auto
    then show ?thesis by blast
  next
    case 2
    from open_sound [OF 2(2)] obtain w post where "s = [c] @ w @ post" "version_number w" "group1 ms = w"
      using 2(1) by auto
    then show ?thesis by blast
  qed
qed

lemma pattern_complete:
  assumes "version_number w"
  shows "re_match pattern (w @ post) \<noteq> None"
proof -
  have "re_match (GroupOpen # tail_pattern) (w @ post) \<noteq> None"
    using tail_complete [OF assms, of post] by simp
  then show ?thesis unfolding pattern_tail by (rule opt_complete)
qed

lemma search_sound:
  "re_search pattern s = Some ms \<Longrightarrow>
     \<exists>pre w post. s = pre @ w @ post \<and> version_number w \<and> group1 ms = w"
proof (induction s)
  case Nil
  then show ?case using pattern_sound [of "[]" ms] by simp
next
  case (Cons c cs)
  show ?case
  proof (cases "re_match pattern (c # cs)")
    case (Some ms')
    with Cons.prems have "ms' = ms" by simp
    with Some show ?thesis using pattern_sound by blast
  next
    case None
    with Cons.prems have "re_search pattern cs = Some ms" by simp
    with Cons.IH obtain pre w post where "cs = pre @ w @ post" "version_number w" "group1 ms = w"
      by blast
    then have "c # cs = (c # pre) @ w @ post \<and> version_number w \<and> group1 ms = w" by simp
    then show ?thesis by blast
  qed
qed

lemma match_search: "re_match r s \<noteq> None \<Longrightarrow> re_search r s \<noteq> None"
  by (cases s) (auto split: option.splits)

lemma search_complete:
  "version_number w \<Longrightarrow> re_search pattern (pre @ w @ post) \<noteq> None"
proof (induction pre)
  case Nil
  then show ?case using match_search [OF pattern_complete] by simp
next
  case (Cons c pre)
  then show ?case by (auto split: option.splits)
qed

text \<open>
  C4. For every file name, \<open>parse_version_from_filename\<close> returns \<open>v\<close> followed by a
  version number (three groups of digits with dots between them) that stands in the file
  name, and it returns \<open>None\<close> exactly when no version number stands anywhere in the file
  name. It returns \<open>v7.4.1\<close> for \<open>FGT_upgrade_v7.4.1.out\<close> and \<open>None\<close> for
  \<open>firmware_image.out\<close>.
\<close>

theorem parse_version_from_filename_spec:
  "(case parse_version_from_filename filename of
      Some ver \<Rightarrow>
        \<exists>pre w post. filename = pre @ w @ post \<and> version_number w \<and> ver = CHR ''v'' # w
    | None \<Rightarrow> \<not> has_version filename)
   \<and> parse_version_from_filename ''FGT_upgrade_v7.4.1.out'' = Some ''v7.4.1''
   \<and> parse_version_from_filename ''firmware_image.out'' = None"
proof (intro conjI)
  show "case parse_version_from_filename filename of
      Some ver \<Rightarrow>
        \<exists>pre w post. filename = pre @ w @ post \<and> version_number w \<and> ver = CHR ''v'' # w
    | None \<Rightarrow> \<not> has_version filename"
  proof (cases "re_search pattern filename")
    case None
    then have "\<not> has_version filename"
      unfolding has_version_def using search_complete by fastforce
    with None show ?thesis by (simp add: parse_version_from_filename_def)
  next
    case (Some ms)
    from search_sound [OF Some] Some show ?thesis
      by (auto simp: parse_version_from_filename_def)
  qed
  show "parse_version_from_filename ''FGT_upgrade_v7.4.1.out'' = Some ''v7.4.1''"
    by (simp add: parse_version_from_filename_def pattern_def group1_def)
  show "parse_version_from_filename ''firmware_image.out'' = None"
    by (simp add: parse_version_from_filename_def pattern_def)
qed

lemma parse_example: "parse_version_from_filename ''FGT_upgrade_v7.4.1.out'' = Some ''v7.4.1''"
  by (simp add: parse_version_from_filename_def pattern_def group1_def)


section \<open>The firmware a device offers\<close>

lemma firmware_entry_obj:
  "firmware_entry (JObj kvs) =
     Inr (if complete_entry (JObj kvs) then Some (entry_dict (JObj kvs)) else None)"
  by (simp add: firmware_entry_def and_then_def complete_entry_def entry_dict_def field_def)

lemma firmware_entry_Inr:
  "x = (if complete_entry fw then Some (entry_dict fw) else None)" if "firmware_entry fw = Inr x"
proof (cases "\<exists>kvs. fw = JObj kvs")
  case True
  then obtain kvs where "fw = JObj kvs" by blast
  with that show ?thesis by (auto simp: firmware_entry_obj)
next
  case False
  then have "firmware_entry fw = Inl AttributeError"
    by (cases fw) (simp_all add: firmware_entry_def and_then_def)
  with that show ?thesis by simp
qed

lemma append_firmware_Inr:
  "append_firmware fws acc = Inr out \<Longrightarrow> out = acc @ map entry_dict (filter complete_entry fws)"
proof (induction fws arbitrary: acc)
  case Nil
  then show ?case by simp
next
  case (Cons fw fws)
  from Cons.prems obtain x where x: "firmware_entry fw = Inr x"
    by (cases "firmware_entry fw") simp_all
  note fx = firmware_entry_Inr [OF x]
  show ?case
  proof (cases "complete_entry fw")
    case True
    with fx x Cons.prems have "append_firmware fws (acc @ [entry_dict fw]) = Inr out" by simp
    from Cons.IH [OF this] True show ?thesis by simp
  next
    case False
    with fx x Cons.prems have "append_firmware fws acc = Inr out" by simp
    from Cons.IH [OF this] False show ?thesis by simp
  qed
qed

lemma append_firmware_objects:
  "list_all (\<lambda>fw. \<exists>kvs. fw = JObj kvs) fws \<Longrightarrow>
     append_firmware fws acc = Inr (acc @ map entry_dict (filter complete_entry fws))"
proof (induction fws arbitrary: acc)
  case Nil
  then show ?case by simp
next
  case (Cons fw fws)
  then obtain kvs where "fw = JObj kvs" by auto
  with Cons show ?case by (simp add: firmware_entry_obj)
qed

lemma entry_dict_truthy:
  "complete_entry fw \<Longrightarrow>
     truthy (version (entry_dict fw)) \<and> truthy (build (entry_dict fw)) \<and>
     truthy (release_type (entry_dict fw)) \<and> truthy (maturity (entry_dict fw))"
  by (simp add: complete_entry_def entry_dict_def)

lemma read_firmware_Inr:
  assumes "read_firmware response = Inr (cur, fws)"
  shows "\<exists>body results available raw.
           json_body response = Some body \<and>
           subscript_str body ''results'' = Inr results \<and>
           subscript_str results ''available'' = Inr available \<and>
           py_iter available = Inr raw \<and>
           fws = map entry_dict (filter complete_entry raw)"
proof -
  from assms obtain body where body: "json_body response = Some body"
    by (cases "json_body response") (simp_all add: read_firmware_def)
  from assms body obtain results where r: "subscript_str body ''results'' = Inr results"
    by (cases "subscript_str body ''results''") (simp_all add: read_firmware_def and_then_def)
  from assms body r obtain current where c: "subscript_str results ''current'' = Inr current"
    by (cases "subscript_str results ''current''") (simp_all add: read_firmware_def and_then_def)
  from assms body r c obtain cv where cv: "subscript_str current ''version'' = Inr cv"
    by (cases "subscript_str current ''version''") (simp_all add: read_firmware_def and_then_def)
  from assms body r c cv obtain available where a: "subscript_str results ''available'' = Inr available"
    by (cases "subscript_str results ''available''") (simp_all add: read_firmware_def and_then_def)
  from assms body r c cv a obtain raw where raw: "py_iter available = Inr raw"
    by (cases "py_iter available") (simp_all add: read_firmware_def and_then_def)
  from assms body r c cv a raw have "append_firmware raw [] = Inr fws"
    by (cases "append_firmware raw []") (simp_all add: read_firmware_def and_then_def)
  from append_firmware_Inr [OF this] have "fws = map entry_dict (filter complete_entry raw)" by simp
  with body r a raw show ?thesis by blast
qed

lemma get_available_firmware_Some:
  assumes "get_available_firmware w ip tok tr = (Inr (cur, Some fws), tr')"
  shows "\<exists>response c. http w tr (GetFirmware ip tok) = Reply response \<and>
           status_code response = 200 \<and> read_firmware response = Inr (c, fws) \<and>
           cur = Some c \<and> tr' = tr @ [Sent (GetFirmware ip tok)]"
  using assms
  by (auto simp: get_available_firmware_def Let_def split: http_result.splits if_splits sum.splits)

lemmas lab_simps = lab_def lab_http_def reply_def fgt_def firmware_body_def vdom_entry_def route_entry_def
  results_body_def
  upgrade_row_def row_fields_def get_available_firmware_def read_firmware_def and_then_def
  firmware_entry_def print_firmware_options_def enumerate_eq_zip save_configuration_def
  upload_firmware_def Let_def backup_filename_def

text \<open>
  C10. When the firmware query of a device succeeds and gives a list of candidates, the
  version, the build, the release type and the maturity of every candidate of the list are
  truthy: the list is made of the entries of \<open>results.available\<close> of the reply that
  have a truthy value for each of the four fields, in order, and an entry without one of
  them, or with a falsy one, is left out. The notes are copied as they are, \<open>None\<close>
  when the entry has none.
\<close>

theorem available_firmware_complete:
  assumes "get_available_firmware w ip tok tr = (Inr (cur, Some fws), tr')"
  shows "(\<forall>fw \<in> set fws. truthy (version fw) \<and> truthy (build fw) \<and>
                          truthy (release_type fw) \<and> truthy (maturity fw)) \<and>
         (\<exists>response body results available raw.
            http w tr (GetFirmware ip tok) = Reply response \<and>
            json_body response = Some body \<and>
            subscript_str body ''results'' = Inr results \<and>
            subscript_str results ''available'' = Inr available \<and>
            py_iter available = Inr raw \<and>
            fws = map entry_dict (filter complete_entry raw))"
proof -
  from get_available_firmware_Some [OF assms] obtain response c where
    h: "http w tr (GetFirmware ip tok) = Reply response" and rf: "read_firmware response = Inr (c, fws)"
    by blast
  from read_firmware_Inr [OF rf] obtain body results available raw where
    b: "json_body response = Some body" "subscript_str body ''results'' = Inr results"
       "subscript_str results ''available'' = Inr available" "py_iter available = Inr raw"
       "fws = map entry_dict (filter complete_entry raw)"
    by blast
  have "\<forall>fw \<in> set fws. truthy (version fw) \<and> truthy (build fw) \<and>
                          truthy (release_type fw) \<and> truthy (maturity fw)"
    using b(5) entry_dict_truthy by auto
  with h b show ?thesis by blast
qed

theorem available_firmware_complete_witness:
  "get_available_firmware lab ''10.0.0.1'' ''token'' [] =
     (Inr (Some (JStr ''v7.2.5''),
           Some [\<lparr>version = JStr ''v7.4.1'', build = JInt 2463, release_type = JStr ''GA'',
                  maturity = JStr ''M'', fw_notes = JNull\<rparr>]),
      [Sent (GetFirmware ''10.0.0.1'' ''token'')]) \<and>
   truthy (JStr ''v7.4.1'') \<and> truthy (JInt 2463) \<and> truthy (JStr ''GA'') \<and> truthy (JStr ''M'') \<and>
   (\<exists>raw. py_iter (JArr raw) = Inr raw \<and> length raw = 3 \<and>
          [\<lparr>version = JStr ''v7.4.1'', build = JInt 2463, release_type = JStr ''GA'',
             maturity = JStr ''M'', fw_notes = JNull\<rparr>] = map entry_dict (filter complete_entry raw))"
proof -
  let ?fw = "\<lparr>version = JStr ''v7.4.1'', build = JInt 2463, release_type = JStr ''GA'',
                  maturity = JStr ''M'', fw_notes = JNull\<rparr>"
  have q: "get_available_firmware lab ''10.0.0.1'' ''token'' [] =
     (Inr (Some (JStr ''v7.2.5''), Some [?fw]), [Sent (GetFirmware ''10.0.0.1'' ''token'')])"
    by (simp add: lab_simps)
  from available_firmware_complete [OF q] obtain response body results available raw where
    t: "truthy (version ?fw) \<and> truthy (build ?fw) \<and> truthy (release_type ?fw) \<and> truthy (maturity ?fw)"
    and r: "http lab [] (GetFirmware ''10.0.0.1'' ''token'') = Reply response"
      "json_body response = Some body" "subscript_str body ''results'' = Inr results"
      "subscript_str results ''available'' = Inr available" "py_iter available = Inr raw"
      "[?fw] = map entry_dict (filter complete_entry raw)"
    by auto
  from r(1-4) have "available = JArr
          [JObj [(''version'', JStr ''v7.4.1''), (''build'', JInt 2463),
                 (''release-type'', JStr ''GA''), (''maturity'', JStr ''M'')],
           JObj [(''version'', JStr ''v7.4.0''), (''build'', JInt 0),
                 (''release-type'', JStr ''GA''), (''maturity'', JStr ''F''),
                 (''notes'', JStr ''withdrawn'')],
           JObj [(''version'', JStr ''v7.2.6''), (''build'', JInt 1575),
                 (''maturity'', JStr ''M'')]]"
    by (auto simp: lab_def lab_http_def reply_def firmware_body_def)
  with r(5) have "py_iter (JArr raw) = Inr raw \<and> length raw = 3" by auto
  with q t r(6) show ?thesis by auto
qed


section \<open>The upgrade of one device\<close>


lemma backups_append: "backups (xs @ ys) = backups xs @ backups ys"
  by (induction xs rule: backups.induct) simp_all

lemma uploads_append: "uploads (xs @ ys) = uploads xs @ uploads ys"
  by (induction xs rule: uploads.induct) simp_all

lemma written_append: "written (xs @ ys) = written xs @ written ys"
  by (induction xs rule: written.induct) simp_all

lemma printed_silent:
  "queried (map Printed ms) = []" "backups (map Printed ms) = []"
  "uploads (map Printed ms) = []" "written (map Printed ms) = []"
  by (induction ms) simp_all

lemma get_available_firmware_trace:
  "get_available_firmware w ip tok tr = (x, tr') \<Longrightarrow>
     \<exists>ms. tr' = tr @ Sent (GetFirmware ip tok) # map Printed ms"
proof -
  assume a: "get_available_firmware w ip tok tr = (x, tr')"
  have "tr' = tr @ Sent (GetFirmware ip tok) # map Printed [] \<or>
        tr' = tr @ Sent (GetFirmware ip tok) # map Printed [ErrFirmwareQuery ip]"
    using a
    by (auto simp: get_available_firmware_def Let_def split: http_result.splits if_splits sum.splits)
  then show ?thesis by blast
qed

lemma print_firmware_options_trace:
  "print_firmware_options cur avail tr = (x, tr') \<Longrightarrow> \<exists>ms. tr' = tr @ map Printed ms"
proof -
  assume a: "print_firmware_options cur avail tr = (x, tr')"
  show ?thesis
  proof (cases avail)
    case None
    with a have "tr' = tr @ map Printed [FirmwareVersionsHeader, CurrentVersion cur]"
      by (auto simp: print_firmware_options_def)
    then show ?thesis by blast
  next
    case (Some fws)
    with a have "tr' = tr @ map Printed ([FirmwareVersionsHeader, CurrentVersion cur] @
        map (\<lambda>(i, fw). FirmwareOption (i + 1) (version fw) (build fw) (release_type fw) (maturity fw))
            (enumerate 0 fws))"
      by (auto simp: print_firmware_options_def)
    then show ?thesis by blast
  qed
qed

lemma print_firmware_options_None:
  "print_firmware_options cur None tr = (x, tr') \<Longrightarrow> x = Inl TypeError"
  by (auto simp: print_firmware_options_def)

lemma print_firmware_options_Some:
  "\<exists>ms. print_firmware_options cur (Some fws) tr = (Inr (), tr @ map Printed ms)"
proof -
  have "print_firmware_options cur (Some fws) tr =
      (Inr (), tr @ map Printed ([FirmwareVersionsHeader, CurrentVersion cur] @
        map (\<lambda>(i, fw). FirmwareOption (i + 1) (version fw) (build fw) (release_type fw) (maturity fw))
            (enumerate 0 fws)))"
    by (auto simp: print_firmware_options_def)
  then show ?thesis by blast
qed

lemma version_found_iff: "version_found fws v = (\<exists>fw \<in> set fws. version fw = JStr v)"
proof (induction fws)
  case Nil
  then show ?case by simp
next
  case (Cons fw fws)
  have "py_eq_str (version fw) v = (version fw = JStr v)"
    by (cases "version fw") auto
  with Cons show ?case by simp
qed

lemma version_not_compared_by_meaning:
  "\<not> version_found [entry_dict (JObj [(''version'', JStr ''v7.4.10'')])] ''v7.4.1'' \<and>
   \<not> version_found [entry_dict (JObj [(''version'', JStr ''7.4.1'')])] ''v7.4.1'' \<and>
   \<not> version_found [entry_dict (JObj [(''version'', JStr ''v7.04.1'')])] ''v7.4.1''"
  by (simp add: entry_dict_def field_def)

lemma lab_hq:
  "upgrade_row lab ''v7.4.1'' ''FGT_upgrade_v7.4.1.out'' (fgt ''hq'' ''10.0.0.1'') [] =
     (None,
      [Printed (Connecting ''hq'' ''10.0.0.1''), Sent (GetFirmware ''10.0.0.1'' ''token''),
       Printed FirmwareVersionsHeader, Printed (CurrentVersion (Some (JStr ''v7.2.5''))),
       Printed (FirmwareOption 1 (JStr ''v7.4.1'') (JInt 2463) (JStr ''GA'') (JStr ''M'')),
       Sent (PostConfigBackup ''10.0.0.1'' ''token''),
       Wrote ''hq-10.0.0.1-config-backup.conf'' ''#config-version=FGT'',
       Printed (ConfigSaved ''hq-10.0.0.1-config-backup.conf''),
       Printed (UpgradeStarted ''hq'' ''FGT_upgrade_v7.4.1.out''),
       Sent (PostFirmwareUpgrade ''10.0.0.1'' ''token'' ''image'' ''FGT_upgrade_v7.4.1.out''),
       Printed (UpgradeCompleted ''hq'')])"
  by (simp add: lab_simps)

text \<open>
  C2. The body of the loop asks a device for a backup or uploads an image to it only if
  the firmware query of this very row returned a list of candidates of which one has a
  version that is the target version, as equal strings. The loop over the candidates stops
  at the first such candidate and keeps nothing but the flag; versions are not compared by
  their meaning.
\<close>

theorem upgrade_needs_exact_version:
  assumes run: "upgrade_row w v filename r tr = (res, tr')"
    and sent: "backups tr' \<noteq> backups tr \<or> uploads tr' \<noteq> uploads tr"
  shows "\<exists>name ip token cur fws tr2.
           row_fields r = Some (name, ip, token) \<and>
           get_available_firmware w ip token (tr @ [Printed (Connecting name ip)])
             = (Inr (cur, Some fws), tr2) \<and>
           version_found fws v \<and>
           (\<exists>fw \<in> set fws. version fw = JStr v)"
proof (cases "row_fields r")
  case None
  with run have "tr' = tr @ map Printed [ErrMissingInfo (fgt_name r)]"
    by (simp add: upgrade_row_def)
  with sent show ?thesis by (simp add: backups_append uploads_append)
next
  case (Some f)
  obtain name ip token where f: "f = (name, ip, token)" by (cases f) auto
  obtain q tr2 where q: "get_available_firmware w ip token (tr @ [Printed (Connecting name ip)]) = (q, tr2)"
    by (cases "get_available_firmware w ip token (tr @ [Printed (Connecting name ip)])") auto
  from get_available_firmware_trace [OF q] obtain ms where
    tr2: "tr2 = (tr @ [Printed (Connecting name ip)]) @ Sent (GetFirmware ip token) # map Printed ms"
    by blast
  have s2: "backups tr2 = backups tr" "uploads tr2 = uploads tr"
    by (simp_all add: tr2 backups_append uploads_append printed_silent)
  show ?thesis
  proof (cases q)
    case (Inl e)
    with run Some f q have "tr' = tr2 @ map Printed [ErrConnect name ip e]"
      by (simp add: upgrade_row_def)
    with sent s2 show ?thesis by (simp add: backups_append uploads_append)
  next
    case (Inr ca)
    obtain cur avail where ca: "ca = (cur, avail)" by (cases ca) auto
    obtain p tr3 where p: "print_firmware_options cur avail tr2 = (p, tr3)"
      by (cases "print_firmware_options cur avail tr2") auto
    from print_firmware_options_trace [OF p] obtain ms3 where tr3: "tr3 = tr2 @ map Printed ms3"
      by blast
    have s3: "backups tr3 = backups tr" "uploads tr3 = uploads tr"
      by (simp_all add: tr3 s2 backups_append uploads_append printed_silent)
    show ?thesis
    proof (cases avail)
      case None
      with p have "p = Inl TypeError" by (simp add: print_firmware_options_None)
      with run Some f q Inr ca p have "tr' = tr3" by (simp add: upgrade_row_def)
      with sent s3 show ?thesis by simp
    next
      case (Some fws)
      show ?thesis
      proof (cases "version_found fws v")
        case True
        with Some f q Inr ca \<open>row_fields r = Some f\<close> show ?thesis
          by (auto simp: version_found_iff)
      next
        case False
        have "tr' = tr3 \<or> tr' = tr3 @ map Printed [ErrVersionNotFound v name]"
          using run \<open>row_fields r = Some f\<close> f q Inr ca p Some False
          by (cases p) (simp_all add: upgrade_row_def)
        with sent s3 show ?thesis by (auto simp: backups_append uploads_append)
      qed
    qed
  qed
qed

theorem upgrade_needs_exact_version_witness:
  "backups (snd (upgrade_row lab ''v7.4.1'' ''FGT_upgrade_v7.4.1.out'' (fgt ''hq'' ''10.0.0.1'') []))
     \<noteq> backups [] \<and>
   (\<exists>name ip token cur fws tr2.
      row_fields (fgt ''hq'' ''10.0.0.1'') = Some (name, ip, token) \<and>
      get_available_firmware lab ip token ([] @ [Printed (Connecting name ip)])
        = (Inr (cur, Some fws), tr2) \<and>
      version_found fws ''v7.4.1'' \<and>
      (\<exists>fw \<in> set fws. version fw = JStr ''v7.4.1''))"
proof -
  have sent: "backups (snd (upgrade_row lab ''v7.4.1'' ''FGT_upgrade_v7.4.1.out'' (fgt ''hq'' ''10.0.0.1'') []))
     \<noteq> backups []"
    by (simp add: lab_hq)
  have run: "upgrade_row lab ''v7.4.1'' ''FGT_upgrade_v7.4.1.out'' (fgt ''hq'' ''10.0.0.1'') [] =
      (None, snd (upgrade_row lab ''v7.4.1'' ''FGT_upgrade_v7.4.1.out'' (fgt ''hq'' ''10.0.0.1'') []))"
    by (simp add: lab_hq)
  from upgrade_needs_exact_version [OF run disjI1 [OF sent]] sent show ?thesis by blast
qed

lemma save_configuration_failed:
  assumes "http w tr (PostConfigBackup ip token) = Reply response" "status_code response \<noteq> 200"
  shows "save_configuration w name ip token tr =
           (Inr (), tr @ [Sent (PostConfigBackup ip token), Printed (ErrBackup name ip)])"
  using assms by (simp add: save_configuration_def)

lemma upload_firmware_sends:
  assumes "read_file w tr filename = Some file_content"
    and "upload_firmware w ip token filename tr = (x, tr')"
  shows "Sent (PostFirmwareUpgrade ip token file_content filename) \<in> set tr'"
  using assms
  by (auto simp: upload_firmware_def Let_def split: http_result.splits if_splits option.splits)

lemma upload_firmware_trace:
  "upload_firmware w ip token filename tr = (x, tr') \<Longrightarrow>
     tr' = tr \<or> (\<exists>c ms. tr' = tr @ Sent (PostFirmwareUpgrade ip token c filename) # map Printed ms)"
proof -
  assume a: "upload_firmware w ip token filename tr = (x, tr')"
  show ?thesis
  proof (cases "read_file w tr filename")
    case None
    with a show ?thesis by (simp add: upload_firmware_def)
  next
    case (Some c)
    with a have "tr' = tr @ Sent (PostFirmwareUpgrade ip token c filename) # map Printed [] \<or>
        tr' = tr @ Sent (PostFirmwareUpgrade ip token c filename) # map Printed [ErrUpload ip]"
      by (auto simp: upload_firmware_def Let_def split: http_result.splits if_splits option.splits)
    then show ?thesis by blast
  qed
qed

text \<open>
  C3. When the target version is among the candidates of a device and the backup request
  is answered with a status other than 200, the failure is printed and the body of the loop
  goes on with \<open>upload_firmware\<close>; when the image file can be read, the upload request is
  sent.
\<close>

theorem backup_failure_goes_on_to_upload:
  assumes fields: "row_fields r = Some (name, ip, token)"
    and query: "get_available_firmware w ip token (tr @ [Printed (Connecting name ip)])
                  = (Inr (cur, Some fws), tr2)"
    and found: "version_found fws v"
    and shown: "tr3 = snd (print_firmware_options cur (Some fws) tr2)"
    and backup: "http w tr3 (PostConfigBackup ip token) = Reply response"
    and failed: "status_code response \<noteq> 200"
    and started: "tr4 = tr3 @ [Sent (PostConfigBackup ip token), Printed (ErrBackup name ip),
                               Printed (UpgradeStarted name filename)]"
  shows "upgrade_row w v filename r tr =
           (case upload_firmware w ip token filename tr4 of
              (Inl e, tr5) \<Rightarrow> (None, tr5 @ [Printed (ErrUpgrade name ip e)])
            | (Inr file_id, tr5) \<Rightarrow> (None, tr5 @ [Printed (UpgradeCompleted name)])) \<and>
         Printed (ErrBackup name ip) \<in> set (snd (upgrade_row w v filename r tr)) \<and>
         (\<forall>file_content. read_file w tr4 filename = Some file_content \<longrightarrow>
            Sent (PostFirmwareUpgrade ip token file_content filename)
              \<in> set (snd (upgrade_row w v filename r tr)))"
proof -
  from print_firmware_options_Some [of cur fws tr2] shown
  have p: "print_firmware_options cur (Some fws) tr2 = (Inr (), tr3)" by auto
  have s: "save_configuration w name ip token tr3 =
      (Inr (), tr3 @ [Sent (PostConfigBackup ip token), Printed (ErrBackup name ip)])"
    by (rule save_configuration_failed [OF backup failed])
  have run: "upgrade_row w v filename r tr =
           (case upload_firmware w ip token filename tr4 of
              (Inl e, tr5) \<Rightarrow> (None, tr5 @ [Printed (ErrUpgrade name ip e)])
            | (Inr file_id, tr5) \<Rightarrow> (None, tr5 @ [Printed (UpgradeCompleted name)]))"
    by (simp add: upgrade_row_def fields query p found s started)
  obtain x tr5 where u: "upload_firmware w ip token filename tr4 = (x, tr5)"
    by (cases "upload_firmware w ip token filename tr4") auto
  from upload_firmware_trace [OF u] have pre: "set tr4 \<subseteq> set tr5" by auto
  have log: "Printed (ErrBackup name ip) \<in> set tr5" using pre started by auto
  have end5: "set tr5 \<subseteq> set (snd (upgrade_row w v filename r tr))"
    using run u by (cases x) auto
  have sent: "Sent (PostFirmwareUpgrade ip token c filename) \<in> set tr5"
    if "read_file w tr4 filename = Some c" for c
    using upload_firmware_sends [OF that u] .
  from run log end5 sent show ?thesis by blast
qed

theorem backup_failure_goes_on_to_upload_witness:
  "row_fields (fgt ''branch'' ''10.0.0.2'') = Some (''branch'', ''10.0.0.2'', ''token'') \<and>
   version_found [entry_dict (JObj [(''version'', JStr ''v7.4.1''), (''build'', JInt 2463),
                 (''release-type'', JStr ''GA''), (''maturity'', JStr ''M'')])] ''v7.4.1'' \<and>
   status_code \<lparr>status_code = 503, resp_text = [], json_body = None\<rparr> \<noteq> 200 \<and>
   Printed (ErrBackup ''branch'' ''10.0.0.2'')
     \<in> set (snd (upgrade_row lab ''v7.4.1'' ''FGT_upgrade_v7.4.1.out'' (fgt ''branch'' ''10.0.0.2'') [])) \<and>
   Sent (PostFirmwareUpgrade ''10.0.0.2'' ''token'' ''image'' ''FGT_upgrade_v7.4.1.out'')
     \<in> set (snd (upgrade_row lab ''v7.4.1'' ''FGT_upgrade_v7.4.1.out'' (fgt ''branch'' ''10.0.0.2'') []))"
proof -
  let ?fw = "entry_dict (JObj [(''version'', JStr ''v7.4.1''), (''build'', JInt 2463),
                 (''release-type'', JStr ''GA''), (''maturity'', JStr ''M'')])"
  let ?tr2 = "[Printed (Connecting ''branch'' ''10.0.0.2''), Sent (GetFirmware ''10.0.0.2'' ''token'')]"
  let ?tr3 = "snd (print_firmware_options (Some (JStr ''v7.2.5'')) (Some [?fw]) ?tr2)"
  let ?tr4 = "?tr3 @ [Sent (PostConfigBackup ''10.0.0.2'' ''token''), Printed (ErrBackup ''branch'' ''10.0.0.2''),
                               Printed (UpgradeStarted ''branch'' ''FGT_upgrade_v7.4.1.out'')]"
  have fields: "row_fields (fgt ''branch'' ''10.0.0.2'') = Some (''branch'', ''10.0.0.2'', ''token'')"
    by (simp add: row_fields_def fgt_def)
  have query: "get_available_firmware lab ''10.0.0.2'' ''token'' ([] @ [Printed (Connecting ''branch'' ''10.0.0.2'')])
                  = (Inr (Some (JStr ''v7.2.5''), Some [?fw]), ?tr2)"
    by (simp add: lab_simps entry_dict_def field_def)
  have found: "version_found [?fw] ''v7.4.1''"
    by (simp add: entry_dict_def field_def)
  have backup: "http lab ?tr3 (PostConfigBackup ''10.0.0.2'' ''token'')
                  = Reply \<lparr>status_code = 503, resp_text = [], json_body = None\<rparr>"
    by (simp add: lab_def lab_http_def reply_def)
  have failed: "status_code \<lparr>status_code = 503, resp_text = [], json_body = None\<rparr> \<noteq> 200"
    by simp
  have img: "read_file lab ?tr4 ''FGT_upgrade_v7.4.1.out'' = Some ''image''"
    by (simp add: lab_def)
  from backup_failure_goes_on_to_upload [OF fields query found refl backup failed refl] img
    fields found failed
  show ?thesis by blast
qed




lemma backup_not_written:
  assumes "http w tr (PostConfigBackup ip token) = Reply response" "status_code response \<noteq> 200"
  shows "written (snd (save_configuration w name ip token tr)) = written tr"
  using assms by (simp add: save_configuration_def written_append)


section \<open>The loop over the inventory\<close>











lemma firmware_query_failure_aborts:
  assumes "row_fields r = Some (name, ip, token)"
    and "http w (tr @ [Printed (Connecting name ip)]) (GetFirmware ip token) = Reply response"
    and "status_code response \<noteq> 200"
  shows "fleet w v filename (r # rs) tr =
           (Some TypeError,
            tr @ [Printed (Connecting name ip), Sent (GetFirmware ip token),
                  Printed (ErrFirmwareQuery ip), Printed FirmwareVersionsHeader,
                  Printed (CurrentVersion None)])"
  using assms
  by (simp add: upgrade_row_def get_available_firmware_def print_firmware_options_def)

lemma transport_failure_continues:
  assumes "row_fields r = Some (name, ip, token)"
    and "http w (tr @ [Printed (Connecting name ip)]) (GetFirmware ip token) = Failure"
  shows "fleet w v filename (r # rs) tr =
           fleet w v filename rs
             (tr @ [Printed (Connecting name ip), Sent (GetFirmware ip token),
                    Printed (ErrConnect name ip RequestException)])"
  using assms
  by (simp add: upgrade_row_def get_available_firmware_def)




text \<open>
  C1. A firmware query that is answered with status 500 does not end in a failure of
  that device alone. \<open>get_available_firmware\<close> returns \<open>(None, None)\<close>,
  \<open>print_firmware_options\<close> raises \<open>TypeError\<close> outside the \<open>try\<close>, and the run
  stops: in the laboratory, the device of the second row is never asked. (A request that
  raises is caught, and the loop goes on: \<open>transport_failure_continues\<close>.)
\<close>

theorem firmware_query_500_aborts_run:
  "main lab ''FGT_upgrade_v7.4.1.out'' [fgt ''old'' ''10.0.0.9'', fgt ''hq'' ''10.0.0.1''] =
     (Uncaught TypeError,
      [Printed Banner, Asked, Printed (Connecting ''old'' ''10.0.0.9''),
       Sent (GetFirmware ''10.0.0.9'' ''token''), Printed (ErrFirmwareQuery ''10.0.0.9''),
       Printed FirmwareVersionsHeader, Printed (CurrentVersion None)])"
proof -
  have f: "row_fields (fgt ''old'' ''10.0.0.9'') = Some (''old'', ''10.0.0.9'', ''token'')"
    by (simp add: row_fields_def fgt_def)
  have h: "http lab ([Printed Banner, Asked] @ [Printed (Connecting ''old'' ''10.0.0.9'')])
             (GetFirmware ''10.0.0.9'' ''token'')
           = Reply \<lparr>status_code = 500, resp_text = [], json_body = None\<rparr>"
    by (simp add: lab_def lab_http_def reply_def)
  have s: "status_code \<lparr>status_code = 500, resp_text = [], json_body = None\<rparr> \<noteq> 200"
    by simp
  have run: "fleet lab ''v7.4.1'' ''FGT_upgrade_v7.4.1.out''
               [fgt ''old'' ''10.0.0.9'', fgt ''hq'' ''10.0.0.1''] [Printed Banner, Asked] =
             (Some TypeError,
              [Printed Banner, Asked, Printed (Connecting ''old'' ''10.0.0.9''),
               Sent (GetFirmware ''10.0.0.9'' ''token''), Printed (ErrFirmwareQuery ''10.0.0.9''),
               Printed FirmwareVersionsHeader, Printed (CurrentVersion None)])"
    using firmware_query_failure_aborts [OF f h s] by simp
  show ?thesis
    by (simp only: main_def parse_example run option.case prod.case)
qed


section \<open>The choice of the VDOM\<close>

lemma vdom_name_not_unbound: "vdom_name vdoms i \<noteq> Inl UnboundLocalError"
proof (cases vdoms)
  case (JArr xs)
  show ?thesis
  proof (cases "py_index xs i")
    case (Inl e)
    then have "e = IndexError" by (auto simp: py_index_def split: if_splits)
    with Inl JArr show ?thesis by (simp add: vdom_name_def and_then_def)
  next
    case (Inr x)
    with JArr show ?thesis by (cases x) (auto simp: vdom_name_def and_then_def split: option.splits)
  qed
next
  case (JStr s)
  then show ?thesis
    by (cases "py_index s i") (auto simp: vdom_name_def and_then_def py_index_def split: if_splits)
qed (simp_all add: vdom_name_def and_then_def)

lemma print_menu_not_unbound: "fst (print_menu items i tr) \<noteq> Inl UnboundLocalError"
proof (induction items arbitrary: i tr)
  case Nil
  then show ?case by simp
next
  case (Cons x items)
  then show ?case by (cases x) (auto split: option.splits)
qed

text \<open>
  C9. \<open>getTrafficVdomName\<close> raises \<open>UnboundLocalError\<close> at its \<open>return\<close> exactly
  when the VDOM query is answered with a status other than 200, or with status 200 and a
  list of fewer than two VDOMs. The other failures of the function are other exceptions.
\<close>

theorem vdom_unbound_exactly_when:
  "fst (getTrafficVdomName w base_url tr) = Inl UnboundLocalError \<longleftrightarrow>
     (\<exists>response. http w tr (GetVdoms base_url) = Reply response \<and>
        (status_code response \<noteq> 200 \<or>
         (\<exists>body vdoms n. json_body response = Some body \<and>
            subscript_str body ''results'' = Inr vdoms \<and> py_len vdoms = Inr n \<and> n < 2)))"
proof (cases "http w tr (GetVdoms base_url)")
  case Failure
  then show ?thesis by (simp add: getTrafficVdomName_def)
next
  case (Reply response)
  show ?thesis
  proof (cases "status_code response = 200")
    case False
    with Reply show ?thesis by (simp add: getTrafficVdomName_def)
  next
    case ok: True
    show ?thesis
    proof (cases "json_body response")
      case None
      with Reply ok show ?thesis by (simp add: getTrafficVdomName_def)
    next
      case (Some body)
      show ?thesis
      proof (cases "subscript_str body ''results''")
        case (Inl e)
        then have "e \<noteq> UnboundLocalError" by (cases body) (auto split: option.splits)
        with Reply ok Some Inl show ?thesis by (simp add: getTrafficVdomName_def)
      next
        case vd: (Inr vdoms)
        show ?thesis
        proof (cases "py_len vdoms")
          case (Inl e)
          then have "e \<noteq> UnboundLocalError" by (cases vdoms) auto
          with Reply ok Some vd Inl show ?thesis by (simp add: getTrafficVdomName_def)
        next
          case (Inr n)
          consider "n < 2" | "n = 2" | "n > 2" by linarith
          then show ?thesis
          proof cases
            case 1
            with Reply ok Some vd Inr show ?thesis by (simp add: getTrafficVdomName_def)
          next
            case 2
            have "fst (getTrafficVdomName w base_url tr) \<noteq> Inl UnboundLocalError"
              using Reply ok Some vd Inr 2 vdom_name_not_unbound [of vdoms 1]
              by (cases "vdom_name vdoms 1") (simp_all add: getTrafficVdomName_def)
            with Reply ok Some vd Inr 2 show ?thesis by simp
          next
            case 3
            obtain items where it: "py_iter vdoms = Inr items"
              using Inr by (cases vdoms) auto
            obtain m tr2 where pm: "print_menu items 0 (tr @ [Sent (GetVdoms base_url)] @ [Printed SelectVdom]) = (m, tr2)"
              by (cases "print_menu items 0 (tr @ [Sent (GetVdoms base_url)] @ [Printed SelectVdom])") auto
            have m: "m \<noteq> Inl UnboundLocalError"
              using print_menu_not_unbound [of items 0 "tr @ [Sent (GetVdoms base_url)] @ [Printed SelectVdom]"] pm
              by simp
            have "fst (getTrafficVdomName w base_url tr) \<noteq> Inl UnboundLocalError"
            proof (cases m)
              case (Inl e)
              with m Reply ok Some vd Inr 3 it pm show ?thesis
                by (simp add: getTrafficVdomName_def)
            next
              case u: (Inr u)
              show ?thesis
              proof (cases "int_input w tr2")
                case NoLine
                with u Reply ok Some vd Inr 3 it pm show ?thesis
                  by (simp add: getTrafficVdomName_def)
              next
                case NotANumber
                with u Reply ok Some vd Inr 3 it pm show ?thesis
                  by (simp add: getTrafficVdomName_def)
              next
                case (Number k)
                with u Reply ok Some vd Inr 3 it pm vdom_name_not_unbound [of vdoms "k - 1"]
                show ?thesis
                  by (cases "vdom_name vdoms (k - 1)") (simp_all add: getTrafficVdomName_def)
              qed
            qed
            with Reply ok Some vd Inr 3 show ?thesis by simp
          qed
        qed
      qed
    qed
  qed
qed

theorem vdom_unbound_exactly_when_witness:
  "http lab [] (GetVdoms ''https://10.0.0.4/api/v2'')
     = Reply \<lparr>status_code = 401, resp_text = [], json_body = None\<rparr> \<and>
   getTrafficVdomName lab ''https://10.0.0.4/api/v2'' [] =
     (Inl UnboundLocalError, [Sent (GetVdoms ''https://10.0.0.4/api/v2''), Printed (ErrVdoms 401)]) \<and>
   py_len (JArr [vdom_entry ''root'']) = Inr 1 \<and>
   getTrafficVdomName lab ''https://10.0.0.3/api/v2'' [] =
     (Inl UnboundLocalError, [Sent (GetVdoms ''https://10.0.0.3/api/v2'')]) \<and>
   fst (getTrafficVdomName lab ''https://10.0.0.1/api/v2'' []) \<noteq> Inl UnboundLocalError"
proof -
  have h4: "http lab [] (GetVdoms ''https://10.0.0.4/api/v2'')
     = Reply \<lparr>status_code = 401, resp_text = [], json_body = None\<rparr>"
    by (simp add: lab_def lab_http_def reply_def)
  have "status_code \<lparr>status_code = 401, resp_text = [], json_body = None\<rparr> \<noteq> 200" by simp
  with h4 vdom_unbound_exactly_when [of lab "''https://10.0.0.4/api/v2''" "[]"]
  have u4: "fst (getTrafficVdomName lab ''https://10.0.0.4/api/v2'' []) = Inl UnboundLocalError"
    by blast
  have t4: "snd (getTrafficVdomName lab ''https://10.0.0.4/api/v2'' [])
      = [Sent (GetVdoms ''https://10.0.0.4/api/v2''), Printed (ErrVdoms 401)]"
    by (simp add: getTrafficVdomName_def lab_def lab_http_def reply_def)
  have e3: "getTrafficVdomName lab ''https://10.0.0.3/api/v2'' [] =
     (Inl UnboundLocalError, [Sent (GetVdoms ''https://10.0.0.3/api/v2'')])"
    by (simp add: getTrafficVdomName_def lab_simps)
  have e1: "fst (getTrafficVdomName lab ''https://10.0.0.1/api/v2'' []) \<noteq> Inl UnboundLocalError"
    by (simp add: getTrafficVdomName_def lab_simps vdom_name_def py_index_def and_then_def)
  from h4 u4 t4 e3 e1 show ?thesis by (simp add: prod_eq_iff)
qed

lemma print_menu_named:
  "list_all2 (\<lambda>vdom name. subscript_str vdom ''name'' = Inr name) vdoms names \<Longrightarrow>
     print_menu vdoms i tr =
       (Inr (), tr @ map (\<lambda>(j, name). Printed (VdomMenuLine (j + 1) name)) (enumerate i names))"
proof (induction vdoms names arbitrary: i tr rule: list_all2_induct)
  case Nil
  then show ?case by simp
next
  case (Cons x xs n ns)
  then show ?case by simp
qed

lemma print_menu_quiet:
  "print_menu items i tr = (m, tr') \<Longrightarrow> \<exists>ms. tr' = tr @ map Printed ms"
proof (induction items arbitrary: i tr)
  case Nil
  then have "tr' = tr @ map Printed []" by simp
  then show ?case by blast
next
  case (Cons x items)
  show ?case
  proof (cases "subscript_str x ''name''")
    case (Inl e)
    with Cons.prems have "tr' = tr @ map Printed []" by simp
    then show ?thesis by blast
  next
    case (Inr name)
    with Cons.prems have "print_menu items (i + 1) (tr @ [Printed (VdomMenuLine (i + 1) name)]) = (m, tr')"
      by simp
    from Cons.IH [OF this] obtain ms where "tr' = (tr @ [Printed (VdomMenuLine (i + 1) name)]) @ map Printed ms"
      by blast
    then have "tr' = tr @ map Printed (VdomMenuLine (i + 1) name # ms)" by simp
    then show ?thesis by blast
  qed
qed

lemma prompts_append: "prompts (xs @ ys) = prompts xs + prompts ys"
  by (induction xs rule: prompts.induct) simp_all

lemma prompts_printed: "prompts (map Printed ms) = 0"
  by (induction ms) simp_all

lemma vdom_name_named:
  assumes "list_all2 (\<lambda>vdom name. subscript_str vdom ''name'' = Inr name) vdoms names"
    and "0 \<le> k" "k < int (length vdoms)"
  shows "vdom_name (JArr vdoms) k = Inr (names ! nat k)"
proof -
  from assms have "nat k < length vdoms" by simp
  with assms(1) have "subscript_str (vdoms ! nat k) ''name'' = Inr (names ! nat k)"
    by (simp add: list_all2_conv_all_nth)
  with assms(2,3) show ?thesis by (simp add: vdom_name_def and_then_def py_index_def)
qed

text \<open>
  C6. When the VDOM query succeeds with a list of VDOMs: with exactly two entries the name
  of the second is returned with no prompt and no menu; with more than two entries the
  menu has one line for each entry, in the order of the list and numbered from 1, and the
  number \<open>k\<close> typed at the prompt (from 1 to the length of the list) returns the name
  of the \<open>k\<close>-th entry; and a run that returns a name has not prompted exactly when the
  list has two entries.
\<close>

theorem vdom_choice:
  assumes got: "http w tr (GetVdoms base_url) = Reply response"
    and ok: "status_code response = 200"
    and body: "json_body response = Some body"
    and vdoms: "subscript_str body ''results'' = Inr (JArr vdoms)"
  shows "(length vdoms = 2 \<and> subscript_str (vdoms ! 1) ''name'' = Inr name \<longrightarrow>
            getTrafficVdomName w base_url tr =
              (Inr name, tr @ [Sent (GetVdoms base_url), Printed (VdomSet name)])) \<and>
         (length vdoms > 2 \<and>
          list_all2 (\<lambda>vdom name. subscript_str vdom ''name'' = Inr name) vdoms names \<and>
          int_input w (tr @ menu base_url names) = Number k \<and> 1 \<le> k \<and> k \<le> int (length vdoms) \<longrightarrow>
            getTrafficVdomName w base_url tr =
              (Inr (names ! nat (k - 1)),
               tr @ menu base_url names @ [Asked, Printed (VdomSet (names ! nat (k - 1)))])) \<and>
         (\<forall>chosen tr'. getTrafficVdomName w base_url tr = (Inr chosen, tr') \<longrightarrow>
            (prompts tr' = prompts tr \<longleftrightarrow> length vdoms = 2))"
proof (intro conjI impI allI)
  assume a: "length vdoms = 2 \<and> subscript_str (vdoms ! 1) ''name'' = Inr name"
  then have "vdom_name (JArr vdoms) 1 = Inr name"
    by (simp add: vdom_name_def and_then_def py_index_def)
  with a got ok body vdoms show "getTrafficVdomName w base_url tr =
              (Inr name, tr @ [Sent (GetVdoms base_url), Printed (VdomSet name)])"
    by (simp add: getTrafficVdomName_def)
next
  assume a: "length vdoms > 2 \<and>
          list_all2 (\<lambda>vdom name. subscript_str vdom ''name'' = Inr name) vdoms names \<and>
          int_input w (tr @ menu base_url names) = Number k \<and> 1 \<le> k \<and> k \<le> int (length vdoms)"
  then have named: "list_all2 (\<lambda>vdom name. subscript_str vdom ''name'' = Inr name) vdoms names"
    by simp
  have pm: "print_menu vdoms 0 (tr @ [Sent (GetVdoms base_url)] @ [Printed SelectVdom]) =
      (Inr (), tr @ menu base_url names)"
    by (simp add: print_menu_named [OF named] menu_def)
  have vn: "vdom_name (JArr vdoms) (k - 1) = Inr (names ! nat (k - 1))"
    using a by (intro vdom_name_named [OF named]) simp_all
  from a got ok body vdoms pm vn show "getTrafficVdomName w base_url tr =
              (Inr (names ! nat (k - 1)),
               tr @ menu base_url names @ [Asked, Printed (VdomSet (names ! nat (k - 1)))])"
    by (simp add: getTrafficVdomName_def)
next
  fix chosen tr'
  assume r: "getTrafficVdomName w base_url tr = (Inr chosen, tr')"
  consider "length vdoms < 2" | "length vdoms = 2" | "length vdoms > 2" by linarith
  then show "prompts tr' = prompts tr \<longleftrightarrow> length vdoms = 2"
  proof cases
    case 1
    with r got ok body vdoms show ?thesis by (simp add: getTrafficVdomName_def)
  next
    case 2
    with r got ok body vdoms have "tr' = tr @ [Sent (GetVdoms base_url), Printed (VdomSet chosen)]"
      by (cases "vdom_name (JArr vdoms) 1") (auto simp: getTrafficVdomName_def)
    with 2 show ?thesis by (simp add: prompts_append)
  next
    case 3
    obtain m tr2 where pm: "print_menu vdoms 0 (tr @ [Sent (GetVdoms base_url)] @ [Printed SelectVdom]) = (m, tr2)"
      by (cases "print_menu vdoms 0 (tr @ [Sent (GetVdoms base_url)] @ [Printed SelectVdom])") auto
    from print_menu_quiet [OF pm] obtain ms where
      tr2: "tr2 = (tr @ [Sent (GetVdoms base_url)] @ [Printed SelectVdom]) @ map Printed ms"
      by blast
    have p2: "prompts tr2 = prompts tr"
      by (simp add: tr2 prompts_append prompts_printed)
    have "tr' = tr2 @ [Asked, Printed (VdomSet chosen)]"
      using r got ok body vdoms 3 pm
      by (cases m; cases "int_input w tr2")
         (auto simp: getTrafficVdomName_def split: sum.splits)
    with p2 3 show ?thesis by (simp add: prompts_append)
  qed
qed

theorem vdom_choice_witness:
  "getTrafficVdomName lab ''https://10.0.0.1/api/v2'' [] =
     (Inr (JStr ''traffic''),
      [Sent (GetVdoms ''https://10.0.0.1/api/v2''), Printed (VdomSet (JStr ''traffic''))]) \<and>
   int_input lab ([] @ menu ''https://10.0.0.2/api/v2'' [JStr ''root'', JStr ''guest'', JStr ''traffic''])
     = Number 2 \<and>
   getTrafficVdomName lab ''https://10.0.0.2/api/v2'' [] =
     (Inr (JStr ''guest''),
      [Sent (GetVdoms ''https://10.0.0.2/api/v2''), Printed SelectVdom,
       Printed (VdomMenuLine 1 (JStr ''root'')), Printed (VdomMenuLine 2 (JStr ''guest'')),
       Printed (VdomMenuLine 3 (JStr ''traffic'')), Asked, Printed (VdomSet (JStr ''guest''))]) \<and>
   prompts (snd (getTrafficVdomName lab ''https://10.0.0.1/api/v2'' [])) = prompts []"
proof -
  let ?two = "[vdom_entry ''root'', vdom_entry ''traffic'']"
  let ?three = "[vdom_entry ''root'', vdom_entry ''guest'', vdom_entry ''traffic'']"
  let ?names = "[JStr ''root'', JStr ''guest'', JStr ''traffic'']"
  let ?r1 = "\<lparr>status_code = 200, resp_text = [], json_body = results_body ?two\<rparr>"
  let ?r2 = "\<lparr>status_code = 200, resp_text = [], json_body = results_body ?three\<rparr>"
  let ?b1 = "JObj [(''http_method'', JStr ''GET''), (''results'', JArr ?two)]"
  let ?b2 = "JObj [(''http_method'', JStr ''GET''), (''results'', JArr ?three)]"
  have g1: "http lab [] (GetVdoms ''https://10.0.0.1/api/v2'') = Reply ?r1"
    by (simp add: lab_def lab_http_def reply_def)
  have g2: "http lab [] (GetVdoms ''https://10.0.0.2/api/v2'') = Reply ?r2"
    by (simp add: lab_def lab_http_def reply_def)
  have ok1: "status_code ?r1 = 200" and ok2: "status_code ?r2 = 200" by simp_all
  have b1: "json_body ?r1 = Some ?b1" and b2: "json_body ?r2 = Some ?b2"
    by (simp_all add: results_body_def)
  have v1: "subscript_str ?b1 ''results'' = Inr (JArr ?two)"
    and v2: "subscript_str ?b2 ''results'' = Inr (JArr ?three)"
    by simp_all
  note c1 = vdom_choice [OF g1 ok1 b1 v1, of "JStr ''traffic''"]
  note c2 = vdom_choice [OF g2 ok2 b2 v2, of _ ?names 2]
  have n1: "length ?two = 2 \<and> subscript_str (?two ! 1) ''name'' = Inr (JStr ''traffic'')"
    by (simp add: vdom_entry_def)
  have i2: "int_input lab ([] @ menu ''https://10.0.0.2/api/v2'' ?names) = Number 2"
    by (simp add: lab_def)
  have n2: "length ?three > 2 \<and>
      list_all2 (\<lambda>vdom name. subscript_str vdom ''name'' = Inr name) ?three ?names \<and>
      int_input lab ([] @ menu ''https://10.0.0.2/api/v2'' ?names) = Number 2 \<and>
      (1::int) \<le> 2 \<and> 2 \<le> int (length ?three)"
    using i2 by (simp add: vdom_entry_def)
  from c1 n1 have e1: "getTrafficVdomName lab ''https://10.0.0.1/api/v2'' [] =
     (Inr (JStr ''traffic''),
      [] @ [Sent (GetVdoms ''https://10.0.0.1/api/v2''), Printed (VdomSet (JStr ''traffic''))])"
    by blast
  from c2 n2 have e2: "getTrafficVdomName lab ''https://10.0.0.2/api/v2'' [] =
     (Inr (?names ! nat (2 - 1)),
      [] @ menu ''https://10.0.0.2/api/v2'' ?names @ [Asked, Printed (VdomSet (?names ! nat (2 - 1)))])"
    by blast
  from c1 e1 have p1: "prompts (snd (getTrafficVdomName lab ''https://10.0.0.1/api/v2'' [])) = prompts []"
    by simp
  from e1 i2 e2 p1 show ?thesis
    by (simp add: menu_def enumerate_eq_zip)
qed

lemma menu_number_zero_is_last:
  assumes "http w tr (GetVdoms base_url) = Reply response" "status_code response = 200"
    "json_body response = Some body" "subscript_str body ''results'' = Inr (JArr vdoms)"
    "length vdoms > 2"
    "list_all2 (\<lambda>vdom name. subscript_str vdom ''name'' = Inr name) vdoms names"
    "int_input w (tr @ menu base_url names) = Number 0"
  shows "fst (getTrafficVdomName w base_url tr) = Inr (last names)"
proof -
  have pm: "print_menu vdoms 0 (tr @ [Sent (GetVdoms base_url)] @ [Printed SelectVdom]) =
      (Inr (), tr @ menu base_url names)"
    by (simp add: print_menu_named [OF assms(6)] menu_def)
  from assms(6) have len: "length names = length vdoms" by (simp add: list_all2_lengthD)
  with assms(5) have ne: "names \<noteq> []" by auto
  from assms(5,6) have "subscript_str (vdoms ! (length vdoms - 1)) ''name'' = Inr (names ! (length vdoms - 1))"
    by (simp add: list_all2_conv_all_nth)
  with assms(5) have "vdom_name (JArr vdoms) (0 - 1) = Inr (names ! (length vdoms - 1))"
    by (simp add: vdom_name_def and_then_def py_index_def nat_diff_distrib')
  with len ne have "vdom_name (JArr vdoms) (0 - 1) = Inr (last names)"
    by (simp add: last_conv_nth)
  with assms pm show ?thesis by (simp add: getTrafficVdomName_def)
qed


section \<open>The default route\<close>

lemma deletions_append: "deletions (xs @ ys) = deletions xs @ deletions ys"
  by (induction xs rule: deletions.induct) simp_all

lemma creations_append: "creations (xs @ ys) = creations xs @ creations ys"
  by (induction xs rule: creations.induct) simp_all

lemma find_default_route_dst:
  "list_all has_dst routes \<Longrightarrow> find_default_route routes = Inr (find is_default routes)"
proof (induction routes)
  case Nil
  then show ?case by simp
next
  case (Cons r routes)
  then obtain kvs d where r: "r = JObj kvs" "map_of kvs ''dst'' = Some d"
    by (cases r) (auto simp: has_dst_def)
  have "py_eq_str d ''0.0.0.0 0.0.0.0'' = (d = JStr ''0.0.0.0 0.0.0.0'')"
    by (cases d) auto
  with r Cons show ?case by (simp add: is_default_def field_def)
qed

lemma has_dst_truthy: "has_dst r \<Longrightarrow> truthy r"
  by (cases r) (auto simp: has_dst_def)

lemma default_route_of_dst:
  assumes "json_body response = Some body" "subscript_str body ''results'' = Inr (JArr routes)"
    and "list_all has_dst routes"
  shows "default_route_of response = Inr (find is_default routes)"
proof (cases "find is_default routes")
  case None
  with assms show ?thesis
    by (simp add: default_route_of_def and_then_def find_default_route_dst)
next
  case (Some r)
  then have "r \<in> set routes" by (auto simp: find_Some_iff)
  with assms(3) have "truthy r" by (auto simp: list_all_iff has_dst_truthy)
  with Some assms show ?thesis
    by (simp add: default_route_of_def and_then_def find_default_route_dst)
qed

lemma one_change_at_most:
  "length (deletions (snd (configureDefaultRoute w base_url v tr))) +
   length (creations (snd (configureDefaultRoute w base_url v tr)))
     \<le> length (deletions tr) + length (creations tr) + 1"
  by (auto simp: configureDefaultRoute_def Let_def deletions_append creations_append
      split: http_result.splits sum.splits option.splits)

text \<open>
  C7. \<open>configureDefaultRoute\<close> never sends more than one request that changes the
  routes. When the static routes are read with status 200 and every route of the list has a
  destination: if some route has the default destination, the one request is the deletion
  of the first such route (by its \<open>seq_num\<close>) and no route is created; otherwise it is
  the creation of the default route, and no route is deleted.
\<close>

theorem default_route_deleted_or_created:
  "length (deletions (snd (configureDefaultRoute w base_url v tr))) +
   length (creations (snd (configureDefaultRoute w base_url v tr)))
     \<le> length (deletions tr) + length (creations tr) + 1 \<and>
   (http w tr (GetStaticRoutes base_url v) = Reply response \<and> status_code response = 200 \<and>
    json_body response = Some body \<and> subscript_str body ''results'' = Inr (JArr routes) \<and>
    list_all has_dst routes \<longrightarrow>
      (case find is_default routes of
         None \<Rightarrow>
           deletions (snd (configureDefaultRoute w base_url v tr)) = deletions tr \<and>
           creations (snd (configureDefaultRoute w base_url v tr))
             = creations tr @ [PostStaticRoute base_url v]
       | Some r \<Rightarrow>
           (\<forall>seq_num. subscript_str r ''seq_num'' = Inr seq_num \<longrightarrow>
              deletions (snd (configureDefaultRoute w base_url v tr))
                = deletions tr @ [DeleteStaticRoute base_url seq_num v] \<and>
              creations (snd (configureDefaultRoute w base_url v tr)) = creations tr)))"
proof (intro conjI impI)
  show "length (deletions (snd (configureDefaultRoute w base_url v tr))) +
   length (creations (snd (configureDefaultRoute w base_url v tr)))
     \<le> length (deletions tr) + length (creations tr) + 1"
    by (rule one_change_at_most)
next
  assume a: "http w tr (GetStaticRoutes base_url v) = Reply response \<and> status_code response = 200 \<and>
    json_body response = Some body \<and> subscript_str body ''results'' = Inr (JArr routes) \<and>
    list_all has_dst routes"
  then have d: "default_route_of response = Inr (find is_default routes)"
    by (simp add: default_route_of_dst)
  show "case find is_default routes of
         None \<Rightarrow>
           deletions (snd (configureDefaultRoute w base_url v tr)) = deletions tr \<and>
           creations (snd (configureDefaultRoute w base_url v tr))
             = creations tr @ [PostStaticRoute base_url v]
       | Some r \<Rightarrow>
           (\<forall>seq_num. subscript_str r ''seq_num'' = Inr seq_num \<longrightarrow>
              deletions (snd (configureDefaultRoute w base_url v tr))
                = deletions tr @ [DeleteStaticRoute base_url seq_num v] \<and>
              creations (snd (configureDefaultRoute w base_url v tr)) = creations tr)"
  proof (cases "find is_default routes")
    case None
    with a d show ?thesis
      by (auto simp: configureDefaultRoute_def Let_def deletions_append creations_append
          split: http_result.splits)
  next
    case (Some r)
    with a d show ?thesis
      by (auto simp: configureDefaultRoute_def Let_def deletions_append creations_append
          split: http_result.splits)
  qed
qed

theorem default_route_deleted_or_created_witness:
  "list_all has_dst [route_entry 1 ''10.1.0.0 255.255.0.0'', route_entry 2 ''0.0.0.0 0.0.0.0'',
                     route_entry 3 ''0.0.0.0 0.0.0.0''] \<and>
   find is_default [route_entry 1 ''10.1.0.0 255.255.0.0'', route_entry 2 ''0.0.0.0 0.0.0.0'',
                    route_entry 3 ''0.0.0.0 0.0.0.0''] = Some (route_entry 2 ''0.0.0.0 0.0.0.0'') \<and>
   subscript_str (route_entry 2 ''0.0.0.0 0.0.0.0'') ''seq_num'' = Inr (JInt 2) \<and>
   deletions (snd (configureDefaultRoute lab ''https://10.0.0.1/api/v2'' (JStr ''traffic'') []))
     = [DeleteStaticRoute ''https://10.0.0.1/api/v2'' (JInt 2) (JStr ''traffic'')] \<and>
   creations (snd (configureDefaultRoute lab ''https://10.0.0.1/api/v2'' (JStr ''traffic'') [])) = [] \<and>
   find is_default [route_entry 1 ''10.1.0.0 255.255.0.0''] = None \<and>
   deletions (snd (configureDefaultRoute lab ''https://10.0.0.2/api/v2'' (JStr ''traffic'') [])) = [] \<and>
   creations (snd (configureDefaultRoute lab ''https://10.0.0.2/api/v2'' (JStr ''traffic'') []))
     = [PostStaticRoute ''https://10.0.0.2/api/v2'' (JStr ''traffic'')]"
proof -
  let ?three = "[route_entry 1 ''10.1.0.0 255.255.0.0'', route_entry 2 ''0.0.0.0 0.0.0.0'',
                     route_entry 3 ''0.0.0.0 0.0.0.0'']"
  let ?one = "[route_entry 1 ''10.1.0.0 255.255.0.0'']"
  let ?r1 = "\<lparr>status_code = 200, resp_text = [], json_body = results_body ?three\<rparr>"
  let ?r2 = "\<lparr>status_code = 200, resp_text = [], json_body = results_body ?one\<rparr>"
  let ?b1 = "JObj [(''http_method'', JStr ''GET''), (''results'', JArr ?three)]"
  let ?b2 = "JObj [(''http_method'', JStr ''GET''), (''results'', JArr ?one)]"
  have h1: "http lab [] (GetStaticRoutes ''https://10.0.0.1/api/v2'' (JStr ''traffic'')) = Reply ?r1 \<and>
      status_code ?r1 = 200 \<and> json_body ?r1 = Some ?b1 \<and>
      subscript_str ?b1 ''results'' = Inr (JArr ?three) \<and> list_all has_dst ?three"
    by (simp add: lab_def lab_http_def reply_def results_body_def has_dst_def route_entry_def)
  have h2: "http lab [] (GetStaticRoutes ''https://10.0.0.2/api/v2'' (JStr ''traffic'')) = Reply ?r2 \<and>
      status_code ?r2 = 200 \<and> json_body ?r2 = Some ?b2 \<and>
      subscript_str ?b2 ''results'' = Inr (JArr ?one) \<and> list_all has_dst ?one"
    by (simp add: lab_def lab_http_def reply_def results_body_def has_dst_def route_entry_def)
  have f1: "find is_default ?three = Some (route_entry 2 ''0.0.0.0 0.0.0.0'')"
    by (simp add: is_default_def field_def route_entry_def)
  have f2: "find is_default ?one = None"
    by (simp add: is_default_def field_def route_entry_def)
  have s: "subscript_str (route_entry 2 ''0.0.0.0 0.0.0.0'') ''seq_num'' = Inr (JInt 2)"
    by (simp add: route_entry_def)
  from default_route_deleted_or_created
         [of lab "''https://10.0.0.1/api/v2''" "JStr ''traffic''" "[]" ?r1 ?b1 ?three] h1
  have c1: "case find is_default ?three of
         None \<Rightarrow>
           deletions (snd (configureDefaultRoute lab ''https://10.0.0.1/api/v2'' (JStr ''traffic'') [])) = deletions [] \<and>
           creations (snd (configureDefaultRoute lab ''https://10.0.0.1/api/v2'' (JStr ''traffic'') []))
             = creations [] @ [PostStaticRoute ''https://10.0.0.1/api/v2'' (JStr ''traffic'')]
       | Some r \<Rightarrow>
           (\<forall>seq_num. subscript_str r ''seq_num'' = Inr seq_num \<longrightarrow>
              deletions (snd (configureDefaultRoute lab ''https://10.0.0.1/api/v2'' (JStr ''traffic'') []))
                = deletions [] @ [DeleteStaticRoute ''https://10.0.0.1/api/v2'' seq_num (JStr ''traffic'')] \<and>
              creations (snd (configureDefaultRoute lab ''https://10.0.0.1/api/v2'' (JStr ''traffic'') [])) = creations [])"
    by blast
  from default_route_deleted_or_created
         [of lab "''https://10.0.0.2/api/v2''" "JStr ''traffic''" "[]" ?r2 ?b2 ?one] h2
  have c2: "case find is_default ?one of
         None \<Rightarrow>
           deletions (snd (configureDefaultRoute lab ''https://10.0.0.2/api/v2'' (JStr ''traffic'') [])) = deletions [] \<and>
           creations (snd (configureDefaultRoute lab ''https://10.0.0.2/api/v2'' (JStr ''traffic'') []))
             = creations [] @ [PostStaticRoute ''https://10.0.0.2/api/v2'' (JStr ''traffic'')]
       | Some r \<Rightarrow>
           (\<forall>seq_num. subscript_str r ''seq_num'' = Inr seq_num \<longrightarrow>
              deletions (snd (configureDefaultRoute lab ''https://10.0.0.2/api/v2'' (JStr ''traffic'') []))
                = deletions [] @ [DeleteStaticRoute ''https://10.0.0.2/api/v2'' seq_num (JStr ''traffic'')] \<and>
              creations (snd (configureDefaultRoute lab ''https://10.0.0.2/api/v2'' (JStr ''traffic'') [])) = creations [])"
    by blast
  from c1 have d1: "deletions (snd (configureDefaultRoute lab ''https://10.0.0.1/api/v2'' (JStr ''traffic'') []))
     = [DeleteStaticRoute ''https://10.0.0.1/api/v2'' (JInt 2) (JStr ''traffic'')] \<and>
   creations (snd (configureDefaultRoute lab ''https://10.0.0.1/api/v2'' (JStr ''traffic'') [])) = []"
    unfolding f1 using s by simp
  from c2 have d2: "deletions (snd (configureDefaultRoute lab ''https://10.0.0.2/api/v2'' (JStr ''traffic'') [])) = [] \<and>
   creations (snd (configureDefaultRoute lab ''https://10.0.0.2/api/v2'' (JStr ''traffic'') []))
     = [PostStaticRoute ''https://10.0.0.2/api/v2'' (JStr ''traffic'')]"
    unfolding f2 by simp
  from h1 f1 s d1 f2 d2 show ?thesis by blast
qed

end
